theory Spec2Isabelle
  imports Complex_Main "HOL-Library.Sublist" "HOL-Library.Multiset"
begin

section \<open>Numbers and strings\<close>

text \<open>
  The source is TypeScript. Byte counts, lengths and indices are integers and are
  modelled as \<open>int\<close>; times in milliseconds and percentages are modelled as exact
  rationals (\<open>rat\<close>), so the rounding of IEEE doubles is not part of the model.
  A string is the list of its code units; the URLs the analysis looks at are ASCII.
\<close>

definition startsWith :: "string \<Rightarrow> string \<Rightarrow> bool" where
  "startsWith s p = (take (length p) s = p)"

fun str_includes :: "string \<Rightarrow> string \<Rightarrow> bool" where
  "str_includes [] p = (p = [])"
| "str_includes (c # cs) p = (startsWith (c # cs) p \<or> str_includes cs p)"

definition lowerChar :: "char \<Rightarrow> char" where
  "lowerChar c =
     (let n = (of_char c :: nat)
      in if 65 \<le> n \<and> n \<le> 90 then char_of (n + 32) else c)"

definition toLowerCase :: "string \<Rightarrow> string" where
  "toLowerCase s = map lowerChar s"

fun join :: "string \<Rightarrow> string list \<Rightarrow> string" where
  "join sep [] = []"
| "join sep [x] = x"
| "join sep (x # y # ys) = x @ sep @ join sep (y # ys)"

text \<open>
  \<open>Array.prototype.sort\<close> with a comparator is a stable sort: an element stays before
  a later one unless the comparator puts it strictly after. Insertion from the right
  computes that order.
\<close>

fun insert_by :: "('a \<Rightarrow> 'a \<Rightarrow> rat) \<Rightarrow> 'a \<Rightarrow> 'a list \<Rightarrow> 'a list" where
  "insert_by cmp x [] = [x]"
| "insert_by cmp x (y # ys) =
     (if cmp x y \<le> 0 then x # y # ys else y # insert_by cmp x ys)"

definition sort_by :: "('a \<Rightarrow> 'a \<Rightarrow> rat) \<Rightarrow> 'a list \<Rightarrow> 'a list" where
  "sort_by cmp xs = foldr (insert_by cmp) xs []"

section \<open>Coverage classifier (coverage.ts)\<close>

record coverage_range =
  range_start :: int
  range_end :: int

text \<open>The coverage provider's record: \<open>{url, text, ranges}\<close>.\<close>

record coverage_entry =
  entry_url :: string
  entry_text :: string
  entry_ranges :: "coverage_range list"

text \<open>
  \<open>CoverageReportEntry\<close>. The three byte counts, which the report's summary has under
  the same names, are the common part of both records.
\<close>

record byte_counts =
  totalBytes :: int
  usedBytes :: int
  unusedBytes :: int

record coverage_report_entry = byte_counts +
  url :: string
  usagePercent :: rat
  isExternal :: bool

text \<open>
  What the code reads of a parsed \<open>URL\<close> object. The parser itself is the platform's
  (\<open>new URL(s)\<close>); it is a parameter of the model, of type
  \<open>string \<Rightarrow> url_obj option\<close>, with \<open>None\<close> where the constructor throws.
\<close>

record url_obj =
  origin :: string
  pathname :: string

definition thirdPartyPatterns :: "string list" where
  "thirdPartyPatterns =
     [''/vendor'', ''/vendors'', ''/node_modules'', ''/npm'', ''/lib/'', ''/libraries'',
      ''/deps'', ''/dependencies'', ''vendor.'', ''vendors.'', ''vendor-'', ''vendors-'',
      ''.vendor.'', ''.vendors.'', ''chunk.vendors'', ''chunk.libs'']"

text \<open>
  The body of the \<open>try\<close> block of \<open>isThirdParty\<close>: \<open>None\<close> is a thrown exception
  (only \<open>new URL\<close> can throw there), \<open>Some b\<close> a returned value.
\<close>

definition isThirdParty_try ::
  "(string \<Rightarrow> url_obj option) \<Rightarrow> string \<Rightarrow> string \<Rightarrow> bool option" where
  "isThirdParty_try parseURL u pageUrl =
     (if startsWith u ''data:'' \<or> startsWith u ''blob:'' then Some False
      else case parseURL u of
        None \<Rightarrow> None
      | Some urlObj \<Rightarrow>
          (case parseURL pageUrl of
             None \<Rightarrow> None
           | Some pageUrlObj \<Rightarrow>
               if origin urlObj \<noteq> origin pageUrlObj then Some True
               else let path = toLowerCase (pathname urlObj)
                    in Some (list_ex (\<lambda>pattern. str_includes path pattern)
                               thirdPartyPatterns)))"

text \<open>\<open>isThirdParty\<close>: the \<open>catch\<close> clause turns every exception into \<open>false\<close>.\<close>

definition isThirdParty ::
  "(string \<Rightarrow> url_obj option) \<Rightarrow> string \<Rightarrow> string \<Rightarrow> bool" where
  "isThirdParty parseURL u pageUrl =
     (case isThirdParty_try parseURL u pageUrl of None \<Rightarrow> False | Some b \<Rightarrow> b)"

text \<open>The loop \<open>for (const range of entry.ranges) usedBytes += range.end - range.start\<close>.\<close>

fun sumRanges :: "int \<Rightarrow> coverage_range list \<Rightarrow> int" where
  "sumRanges acc [] = acc"
| "sumRanges acc (r # rs) = sumRanges (acc + (range_end r - range_start r)) rs"

definition calculateCoverageEntry ::
  "(string \<Rightarrow> url_obj option) \<Rightarrow> coverage_entry \<Rightarrow> string \<Rightarrow> coverage_report_entry" where
  "calculateCoverageEntry parseURL entry pageUrl =
     (let total = int (length (entry_text entry));
          used = sumRanges 0 (entry_ranges entry);
          unused = total - used;
          percent = (if total > 0 then (of_int used / of_int total) * 100 else 0)
      in \<lparr> totalBytes = total, usedBytes = used, unusedBytes = unused,
           url = entry_url entry, usagePercent = percent,
           isExternal = isThirdParty parseURL (entry_url entry) pageUrl \<rparr>)"

text \<open>
  The hypothesis of the data model: every executed range is a half-open interval
  \<open>[start, end)\<close> inside \<open>[0, n]\<close>, and no two ranges of the list overlap.
\<close>

definition range_in_bounds :: "int \<Rightarrow> coverage_range \<Rightarrow> bool" where
  "range_in_bounds n r = (0 \<le> range_start r \<and> range_start r \<le> range_end r \<and> range_end r \<le> n)"

definition ranges_overlap :: "coverage_range \<Rightarrow> coverage_range \<Rightarrow> bool" where
  "ranges_overlap r r' = (max (range_start r) (range_start r') < min (range_end r) (range_end r'))"

fun non_overlapping :: "coverage_range list \<Rightarrow> bool" where
  "non_overlapping [] = True"
| "non_overlapping (r # rs) = (list_all (\<lambda>r'. \<not> ranges_overlap r r') rs \<and> non_overlapping rs)"

definition well_formed_ranges :: "coverage_entry \<Rightarrow> bool" where
  "well_formed_ranges entry =
     (list_all (range_in_bounds (int (length (entry_text entry)))) (entry_ranges entry)
      \<and> non_overlapping (entry_ranges entry))"

section \<open>Optimization heuristics (bundleAnalysis.ts)\<close>

datatype priority = Critical | High | Medium | Low

record dependency_alternative =
  alternative :: string
  sizeSavingsKB :: int
  effort :: string

text \<open>\<open>DEPENDENCY_ALTERNATIVES\<close>, in declaration order (the order of \<open>Object.keys\<close>).\<close>

definition DEPENDENCY_ALTERNATIVES :: "(string \<times> dependency_alternative list) list" where
  "DEPENDENCY_ALTERNATIVES =
     [(''moment'',
         [\<lparr>alternative = ''dayjs'', sizeSavingsKB = 58, effort = ''low''\<rparr>,
          \<lparr>alternative = ''date-fns'', sizeSavingsKB = 45, effort = ''medium''\<rparr>,
          \<lparr>alternative = ''luxon'', sizeSavingsKB = 30, effort = ''medium''\<rparr>]),
      (''lodash'',
         [\<lparr>alternative = ''lodash-es (tree-shakeable)'', sizeSavingsKB = 60, effort = ''low''\<rparr>,
          \<lparr>alternative = ''Native methods + individual imports'', sizeSavingsKB = 65,
            effort = ''medium''\<rparr>]),
      (''underscore'',
         [\<lparr>alternative = ''lodash-es'', sizeSavingsKB = 15, effort = ''low''\<rparr>,
          \<lparr>alternative = ''Native methods'', sizeSavingsKB = 20, effort = ''medium''\<rparr>]),
      (''jquery'',
         [\<lparr>alternative = ''Native DOM APIs'', sizeSavingsKB = 85, effort = ''high''\<rparr>,
          \<lparr>alternative = ''cash-dom'', sizeSavingsKB = 75, effort = ''low''\<rparr>]),
      (''axios'',
         [\<lparr>alternative = ''fetch (native)'', sizeSavingsKB = 12, effort = ''medium''\<rparr>,
          \<lparr>alternative = ''ky'', sizeSavingsKB = 8, effort = ''low''\<rparr>]),
      (''chart.js'',
         [\<lparr>alternative = ''uPlot'', sizeSavingsKB = 150, effort = ''high''\<rparr>,
          \<lparr>alternative = ''Chart.js with tree-shaking'', sizeSavingsKB = 80,
            effort = ''medium''\<rparr>]),
      (''react-icons'',
         [\<lparr>alternative = ''Individual icon imports'', sizeSavingsKB = 100, effort = ''low''\<rparr>]),
      (''core-js'',
         [\<lparr>alternative = ''Targeted polyfills only'', sizeSavingsKB = 80, effort = ''medium''\<rparr>]),
      (''validator'',
         [\<lparr>alternative = ''validator/es (tree-shakeable)'', sizeSavingsKB = 40,
            effort = ''low''\<rparr>]),
      (''numeral'',
         [\<lparr>alternative = ''Intl.NumberFormat (native)'', sizeSavingsKB = 25,
            effort = ''medium''\<rparr>]),
      (''highlight.js'',
         [\<lparr>alternative = ''Prism.js with selected languages'', sizeSavingsKB = 200,
            effort = ''medium''\<rparr>]),
      (''quill'',
         [\<lparr>alternative = ''Tiptap'', sizeSavingsKB = 100, effort = ''high''\<rparr>]),
      (''draft-js'',
         [\<lparr>alternative = ''Slate.js'', sizeSavingsKB = 80, effort = ''high''\<rparr>]),
      (''antd'',
         [\<lparr>alternative = ''Individual component imports'', sizeSavingsKB = 300,
            effort = ''medium''\<rparr>]),
      (''material-ui'',
         [\<lparr>alternative = ''Individual component imports'', sizeSavingsKB = 250,
            effort = ''medium''\<rparr>])]"

definition dependencyNames :: "string list" where
  "dependencyNames = map fst DEPENDENCY_ALTERNATIVES"

text \<open>The five patterns built for one dependency name.\<close>

definition patterns :: "string \<Rightarrow> string list" where
  "patterns dep =
     [''/'' @ dep @ ''/'', ''/'' @ dep @ ''.'', dep @ ''.js'', dep @ ''.min.js'', dep @ ''-'']"

text \<open>
  The two nested loops of \<open>detectHeavyDependency\<close>: the first dependency, in table
  order, one of whose patterns occurs in the lower-cased URL; \<open>None\<close> is \<open>null\<close>.
\<close>

definition matchesDependency :: "string \<Rightarrow> string \<Rightarrow> bool" where
  "matchesDependency lowerUrl dep =
     list_ex (\<lambda>pattern. str_includes lowerUrl pattern) (patterns dep)"

fun firstMatch :: "string \<Rightarrow> string list \<Rightarrow> string option" where
  "firstMatch lowerUrl [] = None"
| "firstMatch lowerUrl (dep # deps) =
     (if matchesDependency lowerUrl dep then Some dep else firstMatch lowerUrl deps)"

definition detectHeavyDependency :: "string \<Rightarrow> string option" where
  "detectHeavyDependency u = firstMatch (toLowerCase u) dependencyNames"

definition determinePriority :: "int \<Rightarrow> rat \<Rightarrow> priority" where
  "determinePriority unusedB unusedPercent =
     (if unusedB > 100 * 1024 \<or> unusedPercent > 50 then Critical
      else if unusedB > 50 * 1024 \<or> unusedPercent > 30 then High
      else if unusedB > 20 * 1024 \<or> unusedPercent > 20 then Medium
      else Low)"

section \<open>Chain detector (bundleAnalysis.ts)\<close>

text \<open>
  What the code reads of a network request: its resource type, its URL and, through
  the response (absent when the request never produced one), the protocol timing
  (absent when unavailable) and the response headers.
\<close>

record protocol_timing =
  requestTime :: rat
  receiveHeadersEnd :: rat

record http_response =
  resp_timing :: "protocol_timing option"
  resp_headers :: "(string \<times> string) list"

record http_request =
  req_resourceType :: string
  req_url :: string
  req_response :: "http_response option"

text \<open>
  \<open>parseInt(s, 10)\<close>: leading white space, an optional sign, then the longest run of
  decimal digits; \<open>None\<close> is \<open>NaN\<close> (no digit). White space is what a code unit below
  256 can be: tab, line feed, vertical tab, form feed, carriage return, space and
  no-break space. The value is the exact integer, also beyond \<open>2 ^ 53\<close>, where the
  code rounds to the nearest double.
\<close>

definition isWhiteSpace :: "char \<Rightarrow> bool" where
  "isWhiteSpace c = ((of_char c :: nat) \<in> {9, 10, 11, 12, 13, 32, 160})"

definition isDigit :: "char \<Rightarrow> bool" where
  "isDigit c = (48 \<le> (of_char c :: nat) \<and> (of_char c :: nat) \<le> 57)"

definition digitsValue :: "string \<Rightarrow> int" where
  "digitsValue ds = foldl (\<lambda>a c. 10 * a + (int (of_char c) - 48)) 0 ds"

definition parseInt10 :: "string \<Rightarrow> int option" where
  "parseInt10 s =
     (let t = dropWhile isWhiteSpace s;
          neg = (case t of [] \<Rightarrow> False | c # _ \<Rightarrow> c = CHR ''-'');
          u = (case t of [] \<Rightarrow> [] | c # r \<Rightarrow> if c = CHR ''-'' \<or> c = CHR ''+'' then r else t);
          ds = takeWhile isDigit u
      in if ds = [] then None
         else Some (if neg then - digitsValue ds else digitsValue ds))"

text \<open>The result of \<open>getRequestTiming\<close>; \<open>sizeBytes = None\<close> is \<open>NaN\<close>.\<close>

record request_timing =
  startTimeMs :: rat
  endTimeMs :: rat
  sizeBytes :: "int option"

definition getRequestTiming :: "http_request \<Rightarrow> request_timing option" where
  "getRequestTiming request =
     (case req_response request of
        None \<Rightarrow> None
      | Some response \<Rightarrow>
          (case resp_timing response of
             None \<Rightarrow> None
           | Some timing \<Rightarrow>
               (let st = requestTime timing * 1000;
                    en = st + receiveHeadersEnd timing;
                    contentLength = map_of (resp_headers response) ''content-length'';
                    size = (case contentLength of
                              None \<Rightarrow> Some 0
                            | Some s \<Rightarrow> if s = [] then Some 0 else parseInt10 s)
                in Some \<lparr> startTimeMs = st, endTimeMs = en, sizeBytes = size \<rparr>)))"

text \<open>An element of \<open>scriptsWithTiming\<close>: \<open>{request, url, ...timing}\<close>.\<close>

record script = request_timing +
  script_request :: http_request
  script_url :: string

datatype bundle_chain_node =
  BundleChainNode (node_url: string) (node_sizeBytes: "int option")
    (node_startTimeMs: rat) (node_endTimeMs: rat) (node_loadTimeMs: rat)
    (children: "bundle_chain_node list")

record bundle_chain =
  depth :: int
  totalTimeMs :: rat
  urls :: "string list"
  root :: bundle_chain_node

definition CHAIN_GAP_THRESHOLD_MS :: rat where
  "CHAIN_GAP_THRESHOLD_MS = 50"

definition withTiming :: "http_request \<Rightarrow> script option" where
  "withTiming request =
     (case getRequestTiming request of
        None \<Rightarrow> None
      | Some t \<Rightarrow> Some \<lparr> startTimeMs = startTimeMs t, endTimeMs = endTimeMs t,
                        sizeBytes = sizeBytes t, script_request = request,
                        script_url = req_url request \<rparr>)"

definition scriptsWithTiming :: "http_request list \<Rightarrow> script list" where
  "scriptsWithTiming requests =
     List.map_filter withTiming (filter (\<lambda>r. req_resourceType r = ''script'') requests)"

definition nodeOf :: "script \<Rightarrow> bundle_chain_node" where
  "nodeOf s = BundleChainNode (script_url s) (sizeBytes s) (startTimeMs s) (endTimeMs s)
                (endTimeMs s - startTimeMs s) []"

text \<open>The \<open>find\<close> of the inner loop: the first script, in sorted order, that may follow.\<close>

definition nextScript :: "script list \<Rightarrow> string set \<Rightarrow> script \<Rightarrow> script option" where
  "nextScript scripts usedUrls currentScript =
     find (\<lambda>s. script_url s \<notin> usedUrls
              \<and> startTimeMs s \<ge> endTimeMs currentScript
              \<and> startTimeMs s \<le> endTimeMs currentScript + CHAIN_GAP_THRESHOLD_MS) scripts"

lemma nextScript_unused:
  assumes "nextScript scripts usedUrls cur = Some nxt"
  shows "nxt \<in> set scripts" and "script_url nxt \<notin> usedUrls"
  using assms unfolding nextScript_def
  by (auto simp: find_Some_iff in_set_conv_nth)

lemma filter_unused_shrinks:
  assumes "nxt \<in> set scripts" and "script_url nxt \<notin> used"
  shows "length (filter (\<lambda>s. script_url s \<notin> insert (script_url nxt) used) scripts)
         < length (filter (\<lambda>s. script_url s \<notin> used) scripts)"
proof -
  let ?ys = "filter (\<lambda>s. script_url s \<notin> used) scripts"
  have "nxt \<in> set ?ys" using assms by simp
  then have "length (filter (\<lambda>s. script_url s \<noteq> script_url nxt) ?ys) < length ?ys"
    by (intro length_filter_less[of nxt]) auto
  moreover have "filter (\<lambda>s. script_url s \<noteq> script_url nxt) ?ys
                 = filter (\<lambda>s. script_url s \<notin> insert (script_url nxt) used) scripts"
    by (simp add: conj_commute)
  ultimately show ?thesis by simp
qed

text \<open>
  The \<open>while (currentScript)\<close> loop. Its state is \<open>(chainNodes, chainUrls, usedUrls)\<close>.
  Each round adds the current URL to \<open>usedUrls\<close> and moves on to a script whose URL is
  not yet there, so the scripts with an unused URL become fewer.
\<close>

function growChain ::
  "script list \<Rightarrow> script \<Rightarrow> bundle_chain_node list \<times> string list \<times> string set
     \<Rightarrow> bundle_chain_node list \<times> string list \<times> string set" where
  "growChain scripts currentScript (chainNodes, chainUrls, usedUrls) =
     (let chainNodes' = chainNodes @ [nodeOf currentScript];
          chainUrls' = chainUrls @ [script_url currentScript];
          usedUrls' = insert (script_url currentScript) usedUrls
      in case nextScript scripts usedUrls' currentScript of
           Some nxt \<Rightarrow> growChain scripts nxt (chainNodes', chainUrls', usedUrls')
         | None \<Rightarrow> (chainNodes', chainUrls', usedUrls'))"
  by pat_completeness auto
termination
proof (relation "measure (\<lambda>(scripts, cur, (ns, us, used)).
         length (filter (\<lambda>s. script_url s \<notin> insert (script_url cur) used) scripts))")
  show "wf (measure (\<lambda>(scripts, cur, (ns, us, used)).
         length (filter (\<lambda>s. script_url s \<notin> insert (script_url cur) used) scripts)))"
    by simp
next
  fix scripts :: "script list" and currentScript :: script
    and chainNodes :: "bundle_chain_node list" and chainUrls :: "string list"
    and usedUrls :: "string set"
    and x xa xb x2
  assume "xb = insert (script_url currentScript) usedUrls"
    and "nextScript scripts xb currentScript = Some x2"
  then show "((scripts, x2, x, xa, xb), scripts, currentScript, chainNodes, chainUrls, usedUrls)
       \<in> measure (\<lambda>(scripts, cur, (ns, us, used)).
         length (filter (\<lambda>s. script_url s \<notin> insert (script_url cur) used) scripts))"
    using filter_unused_shrinks[of x2 scripts xb] nextScript_unused[of scripts xb currentScript x2]
    by simp
qed

text \<open>
  The linking loop \<open>chainNodes[i].children = [chainNodes[i + 1]]\<close>. The nodes are shared
  objects, so afterwards the head node holds the whole chain below it.
\<close>

fun linkChain :: "bundle_chain_node \<Rightarrow> bundle_chain_node list \<Rightarrow> bundle_chain_node" where
  "linkChain n [] = n"
| "linkChain n (m # ms) =
     BundleChainNode (node_url n) (node_sizeBytes n) (node_startTimeMs n) (node_endTimeMs n)
       (node_loadTimeMs n) [linkChain m ms]"

text \<open>
  One round of the outer loop \<open>for (const script of scriptsWithTiming)\<close>, on the state
  \<open>(chains, usedUrls)\<close>, the list \<open>chains\<close> being written \<open>found\<close>. A chain always
  holds the node of the script it starts from, so the empty case of \<open>chainNodes\<close> is
  never taken.
\<close>

definition processScript ::
  "script list \<Rightarrow> int \<Rightarrow> rat \<Rightarrow> bundle_chain list \<times> string set \<Rightarrow> script
     \<Rightarrow> bundle_chain list \<times> string set" where
  "processScript scripts minChainDepth minChainTimeMs st s =
     (case st of (found, usedUrls) \<Rightarrow>
        if script_url s \<in> usedUrls then (found, usedUrls)
        else case growChain scripts s ([], [], usedUrls) of
          (chainNodes, chainUrls, usedUrls') \<Rightarrow>
            (case chainNodes of
               [] \<Rightarrow> (found, usedUrls')
             | n # ns \<Rightarrow>
                 if int (length chainNodes) \<ge> minChainDepth then
                   (let total = node_endTimeMs (last chainNodes) - node_startTimeMs n
                    in if total \<ge> minChainTimeMs
                       then (found @ [\<lparr> depth = int (length chainNodes), totalTimeMs = total,
                                         urls = chainUrls, root = linkChain n ns \<rparr>], usedUrls')
                       else (found, usedUrls'))
                 else (found, usedUrls')))"

definition detectBundleChains :: "http_request list \<Rightarrow> int \<Rightarrow> rat \<Rightarrow> bundle_chain list" where
  "detectBundleChains requests minChainDepth minChainTimeMs =
     (let scripts = sort_by (\<lambda>a b. endTimeMs a - endTimeMs b) (scriptsWithTiming requests)
      in fst (foldl (processScript scripts minChainDepth minChainTimeMs) ([], {}) scripts))"

text \<open>The URLs of the nodes of a linked chain, from the head down.\<close>

fun nodeUrls :: "bundle_chain_node \<Rightarrow> string list" where
  "nodeUrls (BundleChainNode u sz st en lt cs) = u # concat (map nodeUrls cs)"

text \<open>A script request as the repository's tests build it (\<open>createMockScriptRequest\<close>).\<close>

definition scriptRequest :: "string \<Rightarrow> rat \<Rightarrow> rat \<Rightarrow> string \<Rightarrow> http_request" where
  "scriptRequest u startMs endMs contentLength =
     \<lparr> req_resourceType = ''script'', req_url = u,
       req_response = Some \<lparr> resp_timing = Some \<lparr> requestTime = startMs / 1000,
                                                   receiveHeadersEnd = endMs - startMs \<rparr>,
                              resp_headers = [(''content-length'', contentLength)] \<rparr> \<rparr>"

section \<open>Session state, collaborators and platform\<close>

record coverage_options =
  includeJS :: bool
  includeCSS :: bool

text \<open>\<open>PaginationOptions\<close> and the fields the code reads of the result of \<open>paginate\<close>.\<close>

record pagination_options =
  pageSize :: int
  pageIdx :: int

record page_position =
  currentPage :: int
  totalPages :: int
  hasNextPage :: bool
  hasPreviousPage :: bool

record pagination_result = page_position +
  items :: "coverage_report_entry list"
  startIndex :: int
  endIndex :: int

text \<open>The \<open>jsPagination\<close> / \<open>cssPagination\<close> field of a report.\<close>

record pagination_info = page_position +
  showing :: string

record coverage_summary = byte_counts +
  totalResources :: int
  overallUsagePercent :: rat

text \<open>\<open>CoverageReport\<close>; an absent pagination field is \<open>None\<close>.\<close>

record coverage_report =
  jsCoverage :: "coverage_report_entry list"
  cssCoverage :: "coverage_report_entry list"
  summary :: coverage_summary
  jsPagination :: "pagination_info option"
  cssPagination :: "pagination_info option"

text \<open>
  Modelled from the spec: the session context (the \<open>Context\<close> class is not among the
  sources). The spec gives it three slots, each read and written through an accessor:
  the running flag, the coverage options and the last coverage report (absent until one
  is stored).
\<close>

record session_context =
  runningCoverage :: bool
  coverageOptions :: coverage_options
  lastCoverageReport :: "coverage_report option"

text \<open>
  The coverage provider of the selected page, as the handlers use it: each of its four
  operations either succeeds or rejects with an error, \<open>Some e\<close> resp. \<open>Inl e\<close>, where
  \<open>e\<close> is the error's text (\<open>e.message\<close>, or \<open>JSON.stringify(e)\<close>).
\<close>

record page =
  page_url :: string
  startJSCoverage :: "string option"
  startCSSCoverage :: "string option"
  stopJSCoverage :: "string + coverage_entry list"
  stopCSSCoverage :: "string + coverage_entry list"

datatype provider_call =
  StartJSCoverage bool | StartCSSCoverage bool | StopJSCoverage | StopCSSCoverage

text \<open>
  What a handler can change: the session context, the lines of the response, the calls
  made to the coverage provider, and the log.
\<close>

record world =
  ctx :: session_context
  responseLines :: "string list"
  providerCalls :: "provider_call list"
  logged :: "string list"

text \<open>
  The functions the code calls that are not the repository's own, or not among the
  sources: the platform's URL parser and number rendering, and \<open>paginate\<close> of
  \<open>utils/pagination.js\<close> (\<open>Inl e\<close> when it throws). They are parameters of the model.
\<close>

record env =
  parseURL :: "string \<Rightarrow> url_obj option"
  toLocaleString :: "int \<Rightarrow> string"
  toFixed :: "nat \<Rightarrow> rat \<Rightarrow> string"
  numberToString :: "rat \<Rightarrow> string"
  paginate :: "coverage_report_entry list \<Rightarrow> pagination_options \<Rightarrow> string + pagination_result"

definition appendResponseLine :: "string \<Rightarrow> world \<Rightarrow> world" where
  "appendResponseLine l w = w\<lparr> responseLines := responseLines w @ [l] \<rparr>"

definition appendResponseLines :: "string list \<Rightarrow> world \<Rightarrow> world" where
  "appendResponseLines ls w = foldl (\<lambda>w' l. appendResponseLine l w') w ls"

definition setIsRunningCoverage :: "bool \<Rightarrow> world \<Rightarrow> world" where
  "setIsRunningCoverage b w = w\<lparr> ctx := (ctx w)\<lparr> runningCoverage := b \<rparr> \<rparr>"


definition callProvider :: "provider_call \<Rightarrow> world \<Rightarrow> world" where
  "callProvider c w = w\<lparr> providerCalls := providerCalls w @ [c] \<rparr>"

definition logger :: "string \<Rightarrow> world \<Rightarrow> world" where
  "logger l w = w\<lparr> logged := logged w @ [l] \<rparr>"

section \<open>Coverage tools (coverage.ts)\<close>

definition shortUrl :: "nat \<Rightarrow> string \<Rightarrow> string" where
  "shortUrl n u = (if length u > n then ''...'' @ drop (length u - (n - 3)) u else u)"

definition paginationLines :: "env \<Rightarrow> pagination_info option \<Rightarrow> string list" where
  "paginationLines e pg =
     (case pg of
        None \<Rightarrow> []
      | Some p \<Rightarrow>
          [showing p]
          @ (if hasNextPage p
             then [''Next page: '' @ numberToString e (of_int (currentPage p + 1))] else [])
          @ (if hasPreviousPage p
             then [''Previous page: '' @ numberToString e (of_int (currentPage p - 1))] else [])
          @ [''''])"

definition coverageRow :: "env \<Rightarrow> coverage_report_entry \<Rightarrow> string" where
  "coverageRow e entry =
     ''| '' @ shortUrl 50 (url entry) @ '' | ''
     @ (if isExternal entry then ''3rd-party'' else ''Internal'') @ '' | ''
     @ toLocaleString e (totalBytes entry) @ '' | ''
     @ toLocaleString e (usedBytes entry) @ '' | ''
     @ toLocaleString e (unusedBytes entry) @ '' | ''
     @ toFixed e 1 (usagePercent entry) @ ''% |''"

definition coverageSection ::
  "env \<Rightarrow> string \<Rightarrow> coverage_report_entry list \<Rightarrow> pagination_info option \<Rightarrow> string list" where
  "coverageSection e title entries pg =
     (if length entries > 0 then
        [title, '''']
        @ paginationLines e pg
        @ [''| URL | Type | Total Bytes | Used Bytes | Unused Bytes | Usage % |'',
           ''|-----|------|-------------|------------|--------------|---------|'']
        @ map (coverageRow e) entries
        @ ['''']
      else [])"

definition formatCoverageReport :: "env \<Rightarrow> coverage_report \<Rightarrow> string" where
  "formatCoverageReport e report =
     join [CHR 10]
       ([''## Coverage Report'', '''', ''### Summary'',
         ''- Total resources: '' @ numberToString e (of_int (totalResources (summary report))),
         ''- Total bytes: '' @ toLocaleString e (totalBytes (summary report)),
         ''- Used bytes: '' @ toLocaleString e (usedBytes (summary report)),
         ''- Unused bytes: '' @ toLocaleString e (unusedBytes (summary report)),
         ''- Overall usage: '' @ toFixed e 1 (overallUsagePercent (summary report)) @ ''%'',
         '''']
        @ coverageSection e ''### JavaScript Coverage'' (jsCoverage report) (jsPagination report)
        @ coverageSection e ''### CSS Coverage'' (cssCoverage report) (cssPagination report))"




text \<open>
  The first part of the \<open>try\<close> block of \<open>stopCoverageAndAppendOutput\<close>: the provider is
  stopped for each enabled type and every record classified. The result is the world
  after the calls made so far, and either the error thrown or the two entry lists.
\<close>

definition collectCoverage ::
  "env \<Rightarrow> page \<Rightarrow> world
     \<Rightarrow> world \<times> (string + coverage_report_entry list \<times> coverage_report_entry list)" where
  "collectCoverage e pg w =
     (let options = coverageOptions (ctx w);
          pageUrl = page_url pg;
          classify = map (\<lambda>entry. calculateCoverageEntry (parseURL e) entry pageUrl);
          w1 = (if includeJS options then callProvider StopJSCoverage w else w)
      in case (if includeJS options then stopJSCoverage pg else Inr []) of
           Inl err \<Rightarrow> (w1, Inl err)
         | Inr jsEntries \<Rightarrow>
             (let w2 = (if includeCSS options then callProvider StopCSSCoverage w1 else w1)
              in case (if includeCSS options then stopCSSCoverage pg else Inr []) of
                   Inl err \<Rightarrow> (w2, Inl err)
                 | Inr cssEntries \<Rightarrow> (w2, Inr (classify jsEntries, classify cssEntries))))"

definition showingText ::
  "env \<Rightarrow> pagination_result \<Rightarrow> nat \<Rightarrow> string \<Rightarrow> string" where
  "showingText e r n kind =
     ''Showing '' @ numberToString e (of_int (startIndex r + 1)) @ ''-''
     @ numberToString e (of_int (endIndex r)) @ '' of '' @ numberToString e (of_nat n)
     @ '' '' @ kind @ '' files (Page '' @ numberToString e (of_int (currentPage r + 1))
     @ '' of '' @ numberToString e (of_int (totalPages r)) @ '')''"

definition paginationInfo ::
  "env \<Rightarrow> pagination_result \<Rightarrow> nat \<Rightarrow> string \<Rightarrow> pagination_info option" where
  "paginationInfo e r n kind =
     (if n > 0 then
        Some \<lparr> currentPage = currentPage r, totalPages = totalPages r,
               hasNextPage = hasNextPage r, hasPreviousPage = hasPreviousPage r,
               showing = showingText e r n kind \<rparr>
      else None)"

text \<open>
  The second part of the \<open>try\<close> block: sorting, the summary over all entries,
  pagination and the report. Only \<open>paginate\<close> can throw here.
\<close>

definition buildReport ::
  "env \<Rightarrow> coverage_report_entry list \<Rightarrow> coverage_report_entry list \<Rightarrow> pagination_options
     \<Rightarrow> string + coverage_report" where
  "buildReport e js0 css0 pagination =
     (let js = sort_by (\<lambda>a b. of_int (unusedBytes b - unusedBytes a)) js0;
          css = sort_by (\<lambda>a b. of_int (unusedBytes b - unusedBytes a)) css0;
          allEntries = js @ css;
          total = foldl (\<lambda>sum x. sum + totalBytes x) 0 allEntries;
          used = foldl (\<lambda>sum x. sum + usedBytes x) 0 allEntries;
          unused = foldl (\<lambda>sum x. sum + unusedBytes x) 0 allEntries;
          overall = (if total > 0 then (of_int used / of_int total) * 100 else 0)
      in case paginate e js pagination of
           Inl err \<Rightarrow> Inl err
         | Inr jsPaginationResult \<Rightarrow>
             (case paginate e css pagination of
                Inl err \<Rightarrow> Inl err
              | Inr cssPaginationResult \<Rightarrow>
                  Inr \<lparr> jsCoverage = items jsPaginationResult,
                        cssCoverage = items cssPaginationResult,
                        summary = \<lparr> totalBytes = total, usedBytes = used, unusedBytes = unused,
                                    totalResources = int (length allEntries),
                                    overallUsagePercent = overall \<rparr>,
                        jsPagination = paginationInfo e jsPaginationResult (length js) ''JS'',
                        cssPagination = paginationInfo e cssPaginationResult (length css) ''CSS'' \<rparr>))"

text \<open>The value of the whole \<open>try\<close> block: the error thrown, or the report.\<close>

definition computeReport ::
  "env \<Rightarrow> page \<Rightarrow> world \<Rightarrow> pagination_options \<Rightarrow> string + coverage_report" where
  "computeReport e pg w pagination =
     (case snd (collectCoverage e pg w) of
        Inl err \<Rightarrow> Inl err
      | Inr (js, css) \<Rightarrow> buildReport e js css pagination)"

definition errorHeaderLine :: string where
  "errorHeaderLine = ''An error occurred generating the coverage report:''"

text \<open>
  \<open>stopCoverageAndAppendOutput\<close>: the \<open>try\<close> block appends the report to the response,
  the \<open>catch\<close> clause logs and appends the error, and the \<open>finally\<close> clause clears the
  running flag. No statement of the function writes the last-report slot of the
  context.
\<close>

definition stopCoverageAndAppendOutput ::
  "env \<Rightarrow> page \<Rightarrow> world \<Rightarrow> pagination_options \<Rightarrow> world" where
  "stopCoverageAndAppendOutput e pg w pagination =
     (let w1 = fst (collectCoverage e pg w);
          w2 = (case computeReport e pg w pagination of
                  Inr report \<Rightarrow>
                    appendResponseLine (formatCoverageReport e report)
                      (appendResponseLine ''''
                         (appendResponseLine ''Coverage tracking has been stopped.'' w1))
                | Inl errorText \<Rightarrow>
                    appendResponseLine errorText
                      (appendResponseLine errorHeaderLine
                         (logger (''Error stopping coverage: '' @ errorText) w1)))
      in setIsRunningCoverage False w2)"

record stop_params =
  param_pageSize :: "int option"
  param_pageIdx :: "int option"

definition notRunningLines :: "string list" where
  "notRunningLines =
     [''Error: No coverage tracking is running.'', '''', ''To use coverage tracking:'',
      ''1. First call coverage_start to begin tracking'',
      ''2. Navigate or interact with the page'',
      ''3. Then call coverage_stop to get the report'']"

text \<open>The handler of \<open>coverage_stop\<close>.\<close>

definition stopCoverage :: "env \<Rightarrow> stop_params \<Rightarrow> page \<Rightarrow> world \<Rightarrow> world" where
  "stopCoverage e params pg w =
     (if \<not> runningCoverage (ctx w) then appendResponseLines notRunningLines w
      else
        stopCoverageAndAppendOutput e pg w
          \<lparr> pageSize = (case param_pageSize params of None \<Rightarrow> 5 | Some n \<Rightarrow> n),
            pageIdx = (case param_pageIdx params of None \<Rightarrow> 0 | Some n \<Rightarrow> n) \<rparr>)"

text \<open>The accessor \<open>getLastCoverageReport\<close> of the context.\<close>

definition getLastCoverageReport :: "world \<Rightarrow> coverage_report option" where
  "getLastCoverageReport w = lastCoverageReport (ctx w)"

section \<open>Code split suggestions (bundleAnalysis.ts)\<close>

text \<open>\<open>CodeSplitSuggestion\<close>: the fields of a coverage entry, a priority and the dependency.\<close>

record code_split_suggestion = coverage_report_entry +
  priority :: priority
  detectedDependency :: "string option"

definition priorityOrder :: "priority \<Rightarrow> int" where
  "priorityOrder p = (case p of Critical \<Rightarrow> 0 | High \<Rightarrow> 1 | Medium \<Rightarrow> 2 | Low \<Rightarrow> 3)"

definition priorityName :: "priority \<Rightarrow> string" where
  "priorityName p =
     (case p of Critical \<Rightarrow> ''critical'' | High \<Rightarrow> ''high'' | Medium \<Rightarrow> ''medium'' | Low \<Rightarrow> ''low'')"

text \<open>
  \<open>Map.prototype.set\<close> on the insertion-ordered map \<open>heavyDeps\<close>: a key already there
  keeps its place and takes the new value, a new key goes to the end.
\<close>

fun mapSet :: "'k \<Rightarrow> 'v \<Rightarrow> ('k \<times> 'v) list \<Rightarrow> ('k \<times> 'v) list" where
  "mapSet k v [] = [(k, v)]"
| "mapSet k v ((k', v') # kvs) =
     (if k' = k then (k, v) # kvs else (k', v') # mapSet k v kvs)"

text \<open>The body of the loop \<open>for (const entry of jsCoverage)\<close>, on \<open>(candidates, heavyDeps)\<close>.\<close>

definition considerEntry ::
  "rat \<Rightarrow> rat \<Rightarrow> code_split_suggestion list \<times> (string \<times> coverage_report_entry) list
     \<Rightarrow> coverage_report_entry
     \<Rightarrow> code_split_suggestion list \<times> (string \<times> coverage_report_entry) list" where
  "considerEntry minBundleSizeKB minUnusedPercent st entry =
     (case st of (candidates, heavyDeps) \<Rightarrow>
        let sizeKB = of_int (totalBytes entry) / 1024;
            unusedPercent = 100 - usagePercent entry
        in if sizeKB \<ge> minBundleSizeKB \<and> unusedPercent \<ge> minUnusedPercent then
             (let detectedDep = detectHeavyDependency (url entry)
              in (candidates @
                    [\<lparr> totalBytes = totalBytes entry, usedBytes = usedBytes entry,
                       unusedBytes = unusedBytes entry, url = url entry,
                       usagePercent = usagePercent entry, isExternal = isExternal entry,
                       priority = determinePriority (unusedBytes entry) unusedPercent,
                       detectedDependency = detectedDep \<rparr>],
                  case detectedDep of
                    None \<Rightarrow> heavyDeps
                  | Some dep \<Rightarrow> mapSet dep entry heavyDeps))
           else (candidates, heavyDeps))"

definition compareCandidates :: "code_split_suggestion \<Rightarrow> code_split_suggestion \<Rightarrow> rat" where
  "compareCandidates a b =
     (let priorityDiff = priorityOrder (priority a) - priorityOrder (priority b)
      in if priorityDiff \<noteq> 0 then of_int priorityDiff
         else of_int (unusedBytes b - unusedBytes a))"

text \<open>The candidates, filtered and sorted, and the heavy dependencies found on the way.\<close>

definition selectCandidates ::
  "rat \<Rightarrow> rat \<Rightarrow> coverage_report_entry list
     \<Rightarrow> code_split_suggestion list \<times> (string \<times> coverage_report_entry) list" where
  "selectCandidates minBundleSizeKB minUnusedPercent js =
     (case foldl (considerEntry minBundleSizeKB minUnusedPercent) ([], []) js of
        (candidates, heavyDeps) \<Rightarrow> (sort_by compareCandidates candidates, heavyDeps))"

definition lastSegment :: "string \<Rightarrow> string" where
  "lastSegment u = rev (takeWhile (\<lambda>c. c \<noteq> CHR ''/'') (rev u))"

definition generateLazyLoadAdvice :: "env \<Rightarrow> string \<Rightarrow> rat \<Rightarrow> string" where
  "generateLazyLoadAdvice e u unusedPercent =
     (let fileName = (if lastSegment u = [] then ''this module'' else lastSegment u);
          shortName = shortUrl 40 fileName
      in ''**'' @ shortName @ ''** has '' @ toFixed e 0 unusedPercent
         @ ''% unused code on initial load. Consider lazy loading this module so it's only fetched when actually needed. Convert static imports to dynamic imports and load the module on user interaction or route change.'')"

definition lazyAdviceLine :: "env \<Rightarrow> code_split_suggestion \<Rightarrow> string" where
  "lazyAdviceLine e candidate =
     ''- '' @ generateLazyLoadAdvice e (url candidate) (100 - usagePercent candidate)
     @ '' ['' @ priorityName (priority candidate) @ '']''"

definition opportunityRow :: "env \<Rightarrow> code_split_suggestion \<Rightarrow> string" where
  "opportunityRow e candidate =
     ''| '' @ shortUrl 35 (url candidate) @ '' | '' @ priorityName (priority candidate) @ '' | ''
     @ toFixed e 1 (of_int (totalBytes candidate) / 1024) @ ''KB | ''
     @ toFixed e 1 (of_int (usedBytes candidate) / 1024) @ ''KB | ''
     @ toFixed e 1 (of_int (unusedBytes candidate) / 1024) @ ''KB | ''
     @ toFixed e 1 (usagePercent candidate) @ ''% |''"

definition alternativeRows :: "env \<Rightarrow> string \<Rightarrow> string list" where
  "alternativeRows e dep =
     (case map_of DEPENDENCY_ALTERNATIVES dep of
        None \<Rightarrow> []
      | Some alternatives \<Rightarrow>
          map (\<lambda>alt. ''| '' @ dep @ '' | '' @ alternative alt @ '' | ''
                     @ numberToString e (of_int (sizeSavingsKB alt)) @ ''KB | ''
                     @ effort alt @ '' |'') alternatives)"

definition heavySection :: "env \<Rightarrow> (string \<times> coverage_report_entry) list \<Rightarrow> string list" where
  "heavySection e heavyDeps =
     (if length heavyDeps > 0 then
        [''### Heavy Dependencies with Lighter Alternatives'', '''',
         ''| Current | Alternative | Savings | Effort |'',
         ''|---------|-------------|---------|--------|'']
        @ foldl (\<lambda>ls kv. ls @ alternativeRows e (fst kv)) [] heavyDeps
        @ ['''']
      else [])"

text \<open>
  The lazy-load section: the loop runs over \<open>lazyLoadCandidates.slice(0, 5)\<close> and pushes
  one advice line and one empty line for each.
\<close>

definition lazySection :: "env \<Rightarrow> code_split_suggestion list \<Rightarrow> string list" where
  "lazySection e candidates =
     (let lazyLoadCandidates = filter (\<lambda>c. usagePercent c < 50 \<and> \<not> isExternal c) candidates
      in if length lazyLoadCandidates > 0 then
           [''### Lazy Load Candidates'',
            ''These modules have low initial usage and should be lazy loaded to improve initial page load:'',
            '''']
           @ foldl (\<lambda>ls c. ls @ [lazyAdviceLine e c] @ ['''']) [] (take 5 lazyLoadCandidates)
         else [])"

definition treeShakingLines :: "env \<Rightarrow> string \<times> coverage_report_entry \<Rightarrow> string list" where
  "treeShakingLines e kv =
     (case kv of (dep, entry) \<Rightarrow>
        [''**'' @ dep @ ''** ('' @ toFixed e 0 (100 - usagePercent entry) @ ''% unused)'',
         '''',
         ''- Only '' @ toFixed e 0 (usagePercent entry)
           @ ''% of this library is being used. Import only the specific functions you need instead of the entire library.'',
         ''- Check if there's an ES modules version (often named with '' @ [CHR 0x22] @ ''-es''
           @ [CHR 0x22] @ '' suffix) that supports tree shaking.'',
         ''- Consider whether a lighter alternative from the table above would meet your needs.'',
         ''''])"

definition treeShakingSection :: "env \<Rightarrow> (string \<times> coverage_report_entry) list \<Rightarrow> string list" where
  "treeShakingSection e heavyDeps =
     (if length heavyDeps > 0 then
        [''### Tree Shaking Opportunities'', '''',
         ''The following heavy dependencies were detected. Consider these optimizations:'',
         '''']
        @ foldl (\<lambda>ls kv. ls @ treeShakingLines e kv) [] heavyDeps
      else [])"

text \<open>
  The table of all candidates: the loop runs over \<open>candidates.slice(0, 15)\<close>; what is
  beyond is reported as a number.
\<close>

definition opportunitiesSection :: "env \<Rightarrow> code_split_suggestion list \<Rightarrow> string list" where
  "opportunitiesSection e candidates =
     [''### All Optimization Opportunities'', '''',
      ''| URL | Priority | Size | Used | Unused | Usage % |'',
      ''|-----|----------|------|------|--------|---------|'']
     @ foldl (\<lambda>ls c. ls @ [opportunityRow e c]) [] (take 15 candidates)
     @ (if length candidates > 15 then
          ['''',
           ''*...and '' @ numberToString e (of_nat (length candidates) - 15)
             @ '' more opportunities*'']
        else [])"

definition summaryLines :: "env \<Rightarrow> code_split_suggestion list \<Rightarrow> string list" where
  "summaryLines e candidates =
     (let totalUnused = foldl (\<lambda>sum c. sum + unusedBytes c) 0 candidates;
          criticalCount = length (filter (\<lambda>c. priority c = Critical) candidates);
          highCount = length (filter (\<lambda>c. priority c = High) candidates)
      in [''## Code Split Suggestions'', '''', ''### Summary'',
          ''- Total unused: '' @ toFixed e 1 (of_int totalUnused / 1024) @ ''KB'',
          ''- Potential savings: ~'' @ toFixed e 1 ((of_int totalUnused * (7 / 10)) / 1024)
            @ ''KB (estimated)'',
          ''- Critical issues: '' @ numberToString e (of_nat criticalCount),
          ''- High priority issues: '' @ numberToString e (of_nat highCount),
          ''- Total opportunities: '' @ numberToString e (of_nat (length candidates)),
          ''''])"

text \<open>The array \<open>lines\<close> of \<open>suggestCodeSplits\<close>, as it stands before it is joined.\<close>

definition suggestionLines :: "env \<Rightarrow> rat \<Rightarrow> rat \<Rightarrow> coverage_report_entry list \<Rightarrow> string list" where
  "suggestionLines e minBundleSizeKB minUnusedPercent js =
     (case selectCandidates minBundleSizeKB minUnusedPercent js of
        (candidates, heavyDeps) \<Rightarrow>
          summaryLines e candidates
          @ (if length candidates = 0 then
               [''### No Optimization Opportunities Found'', '''',
                ''No bundles found with size >= '' @ numberToString e minBundleSizeKB
                  @ ''KB and unused >= '' @ numberToString e minUnusedPercent @ ''%.'',
                ''Your bundles appear well-optimized!'']
             else
               heavySection e heavyDeps
               @ lazySection e candidates
               @ treeShakingSection e heavyDeps
               @ opportunitiesSection e candidates))"

record split_params =
  param_minBundleSizeKB :: "rat option"
  param_minUnusedPercent :: "rat option"

text \<open>The handler of \<open>suggest_code_splits\<close>.\<close>

definition suggestCodeSplits :: "env \<Rightarrow> split_params \<Rightarrow> world \<Rightarrow> world" where
  "suggestCodeSplits e params w =
     (let minBundleSizeKB = (case param_minBundleSizeKB params of None \<Rightarrow> 50 | Some x \<Rightarrow> x);
          minUnusedPercent = (case param_minUnusedPercent params of None \<Rightarrow> 20 | Some x \<Rightarrow> x)
      in case getLastCoverageReport w of
           None \<Rightarrow>
             appendResponseLines
               [''## Error: No Coverage Data Available'', '''',
                ''You must run coverage tracking before using this tool:'',
                ''1. Call `coverage_start` to begin tracking'',
                ''2. Navigate or interact with the page'',
                ''3. Call `coverage_stop` to collect data'',
                ''4. Then call `suggest_code_splits` to analyze''] w
         | Some coverageReport \<Rightarrow>
             if length (jsCoverage coverageReport) = 0 then
               appendResponseLines
                 [''## No JavaScript Coverage Data'', '''',
                  ''No JavaScript files were captured in the coverage report.''] w
             else
               appendResponseLine
                 (join [CHR 10]
                    (suggestionLines e minBundleSizeKB minUnusedPercent (jsCoverage coverageReport)))
                 w)"

section \<open>Example inputs\<close>

text \<open>
  Modelled from the spec: \<open>paginate\<close> (\<open>utils/pagination.js\<close> is not among the sources),
  used where an example needs a concrete environment. The number of pages is the
  ceiling of the quotient and at least one; an index beyond the last page is clamped
  to it; the window is \<open>[startIndex, endIndex)\<close>.
\<close>

definition paginate_spec ::
  "coverage_report_entry list \<Rightarrow> pagination_options \<Rightarrow> string + pagination_result" where
  "paginate_spec xs opts =
     (let n = int (length xs);
          pages = max 1 ((n + pageSize opts - 1) div pageSize opts);
          cur = min (pageIdx opts) (pages - 1);
          first = cur * pageSize opts;
          last = min n (first + pageSize opts)
      in Inr \<lparr> currentPage = cur, totalPages = pages, hasNextPage = (cur < pages - 1),
               hasPreviousPage = (cur > 0),
               items = take (nat (last - first)) (drop (nat first) xs),
               startIndex = first, endIndex = last \<rparr>)"

text \<open>
  An environment for examples: the URLs the examples use as the platform parses them
  (every other string is left unparsed), the spec's pagination, integers rendered in
  decimal and \<open>toFixed\<close> rounding to the nearest decimal in exact arithmetic; a
  fraction, which no example interpolates, is rendered as a question mark.
\<close>

definition exampleParseURL :: "string \<Rightarrow> url_obj option" where
  "exampleParseURL s =
     (if s = ''https://example.com/'' then
        Some \<lparr> origin = ''https://example.com'', pathname = ''/'' \<rparr>
      else if s = ''https://example.com/script.js'' then
        Some \<lparr> origin = ''https://example.com'', pathname = ''/script.js'' \<rparr>
      else if s = ''blob:https://cdn.example.net/1234'' then
        Some \<lparr> origin = ''https://cdn.example.net'', pathname = ''https://cdn.example.net/1234'' \<rparr>
      else if s = ''https://cdn.example.net/lib.js'' then
        Some \<lparr> origin = ''https://cdn.example.net'', pathname = ''/lib.js'' \<rparr>
      else None)"

fun showNat :: "nat \<Rightarrow> string" where
  "showNat n =
     (if n < 10 then [char_of (48 + n)] else showNat (n div 10) @ [char_of (48 + n mod 10)])"

definition showInt :: "int \<Rightarrow> string" where
  "showInt i = (if i < 0 then ''-'' @ showNat (nat (- i)) else showNat (nat i))"

definition showRat :: "rat \<Rightarrow> string" where
  "showRat x = (if snd (quotient_of x) = 1 then showInt (fst (quotient_of x)) else ''?'')"

definition showFixed :: "nat \<Rightarrow> rat \<Rightarrow> string" where
  "showFixed d x =
     (let m = nat (floor (abs x * 10 ^ d + 1 / 2));
          fraction = showNat (m mod 10 ^ d)
      in (if x < 0 then ''-'' else [])
         @ showNat (m div 10 ^ d)
         @ (if d = 0 then []
            else ''.'' @ replicate (d - length fraction) (CHR ''0'') @ fraction))"

definition exampleEnv :: env where
  "exampleEnv =
     \<lparr> parseURL = exampleParseURL, toLocaleString = showInt,
       toFixed = showFixed, numberToString = showRat,
       paginate = paginate_spec \<rparr>"

definition exampleEntry :: coverage_entry where
  "exampleEntry =
     \<lparr> entry_url = ''https://example.com/script.js'', entry_text = ''0123456789'',
       entry_ranges = [\<lparr> range_start = 5, range_end = 8 \<rparr>,
                       \<lparr> range_start = 0, range_end = 3 \<rparr>] \<rparr>"

definition exampleWorld :: world where
  "exampleWorld =
     \<lparr> ctx = \<lparr> runningCoverage = True,
               coverageOptions = \<lparr> includeJS = True, includeCSS = False \<rparr>,
               lastCoverageReport = None \<rparr>,
       responseLines = [], providerCalls = [StartJSCoverage True], logged = [] \<rparr>"

definition examplePage :: page where
  "examplePage =
     \<lparr> page_url = ''https://example.com/'', startJSCoverage = None, startCSSCoverage = None,
       stopJSCoverage = Inr [exampleEntry], stopCSSCoverage = Inr [] \<rparr>"

text \<open>The report \<open>coverage_stop\<close> computes in the example session.\<close>

definition exampleReport :: coverage_report where
  "exampleReport =
     \<lparr> jsCoverage =
         [\<lparr> totalBytes = 10, usedBytes = 6, unusedBytes = 4,
            url = ''https://example.com/script.js'', usagePercent = 60, isExternal = False \<rparr>],
       cssCoverage = [],
       summary = \<lparr> totalBytes = 10, usedBytes = 6, unusedBytes = 4, totalResources = 1,
                   overallUsagePercent = 60 \<rparr>,
       jsPagination =
         Some \<lparr> currentPage = 0, totalPages = 1, hasNextPage = False, hasPreviousPage = False,
                showing = ''Showing 1-1 of 1 JS files (Page 1 of 1)'' \<rparr>,
       cssPagination = None \<rparr>"


text \<open>Two scripts: A loads from 0 to 100 ms, B from 110 to 200 ms.\<close>

definition scriptA :: http_request where
  "scriptA = scriptRequest ''https://example.com/a.js'' 0 100 ''50000''"

definition scriptB :: http_request where
  "scriptB = scriptRequest ''https://example.com/b.js'' 110 200 ''80000''"

text \<open>
  Two scripts that are requested together, 25 ms after A has ended, and end together:
  both load from 125 to 250 ms.
\<close>

definition scriptC :: http_request where
  "scriptC = scriptRequest ''https://example.com/c.js'' 125 250 ''10000''"

definition scriptD :: http_request where
  "scriptD = scriptRequest ''https://example.com/d.js'' 125 250 ''20000''"

text \<open>B as it is with a gap of 60 ms after A.\<close>

definition scriptLate :: http_request where
  "scriptLate = scriptRequest ''https://example.com/b.js'' 160 250 ''80000''"

text \<open>A first-party bundle of 100KB, 90% unused; the examples take sixteen of it.\<close>

definition exampleChunk :: coverage_report_entry where
  "exampleChunk =
     \<lparr> totalBytes = 102400, usedBytes = 10240, unusedBytes = 92160,
       url = ''https://example.com/chunk.js'', usagePercent = 10, isExternal = False \<rparr>"

text \<open>A session whose last report holds sixteen such bundles.\<close>

definition exampleSplitReport :: coverage_report where
  "exampleSplitReport =
     \<lparr> jsCoverage = replicate 16 exampleChunk, cssCoverage = [],
       summary = \<lparr> totalBytes = 1638400, usedBytes = 163840, unusedBytes = 1474560,
                   totalResources = 16, overallUsagePercent = 10 \<rparr>,
       jsPagination = None, cssPagination = None \<rparr>"

definition exampleSplitWorld :: world where
  "exampleSplitWorld =
     \<lparr> ctx = \<lparr> runningCoverage = False,
               coverageOptions = \<lparr> includeJS = True, includeCSS = False \<rparr>,
               lastCoverageReport = Some exampleSplitReport \<rparr>,
       responseLines = [], providerCalls = [], logged = [] \<rparr>"

section \<open>Notions used in the statements\<close>

text \<open>The set of byte offsets the ranges of a list cover.\<close>

definition covered :: "coverage_range list \<Rightarrow> int set" where
  "covered rs = (\<Union>r \<in> set rs. {range_start r ..< range_end r})"

text \<open>
  The invariant of the outer loop: no URL occurs twice in the chains found so far, every
  URL of a chain is marked used, and the nodes below the head of a chain carry the
  chain's URLs, in order.
\<close>

definition chains_inv :: "bundle_chain list \<times> string set \<Rightarrow> bool" where
  "chains_inv st =
     (distinct (concat (map urls (fst st)))
      \<and> set (concat (map urls (fst st))) \<subseteq> snd st
      \<and> map (\<lambda>c. nodeUrls (root c)) (fst st) = map urls (fst st))"

text \<open>An advice entry is a line that starts with \<open>- **\<close>; no other line of the output does.\<close>

definition isAdviceLine :: "string \<Rightarrow> bool" where
  "isAdviceLine l = startsWith l ''- **''"

section \<open>Properties of the coverage classifier\<close>

lemma sumRanges_sum_list:
  "sumRanges acc rs = acc + sum_list (map (\<lambda>r. range_end r - range_start r) rs)"
  by (induction rs arbitrary: acc) auto

lemma covered_Cons: "covered (r # rs) = {range_start r ..< range_end r} \<union> covered rs"
  by (simp add: covered_def)

lemma finite_covered: "finite (covered rs)"
  by (simp add: covered_def)

lemma covered_disjoint:
  assumes "list_all (\<lambda>r'. \<not> ranges_overlap r r') rs"
  shows "{range_start r ..< range_end r} \<inter> covered rs = {}"
  using assms by (auto simp: covered_def list_all_iff ranges_overlap_def)

lemma covered_bounds:
  assumes "list_all (range_in_bounds n) rs"
  shows "covered rs \<subseteq> {0 ..< n}"
  using assms by (auto simp: covered_def list_all_iff range_in_bounds_def)

lemma used_is_card:
  assumes "list_all (range_in_bounds n) rs" and "non_overlapping rs"
  shows "sum_list (map (\<lambda>r. range_end r - range_start r) rs) = int (card (covered rs))"
  using assms
proof (induction rs)
  case Nil
  then show ?case by (simp add: covered_def)
next
  case (Cons r rs)
  have len: "int (card {range_start r ..< range_end r}) = range_end r - range_start r"
    using Cons.prems(1) by (simp add: range_in_bounds_def)
  have "card (covered (r # rs)) = card {range_start r ..< range_end r} + card (covered rs)"
    unfolding covered_Cons using Cons.prems(2)
    by (intro card_Un_disjoint finite_covered covered_disjoint) auto
  with Cons len show ?case by simp
qed

lemma used_bounds:
  assumes "list_all (range_in_bounds n) rs" and "non_overlapping rs" and "0 \<le> n"
  shows "0 \<le> sumRanges 0 rs" and "sumRanges 0 rs \<le> n"
proof -
  have eq: "sumRanges 0 rs = int (card (covered rs))"
    using used_is_card[OF assms(1,2)] by (simp add: sumRanges_sum_list)
  show "0 \<le> sumRanges 0 rs" using eq by simp
  have "card (covered rs) \<le> card {0 ..< n}"
    by (intro card_mono covered_bounds assms) simp
  then show "sumRanges 0 rs \<le> n" using eq assms(3) by simp
qed

text \<open>
  C5. For a coverage record whose executed ranges are non-overlapping half-open
  intervals inside \<open>[0, sourceLength]\<close>, the entry computed by
  \<open>calculateCoverageEntry\<close> has \<open>usedBytes + unusedBytes = totalBytes\<close> and a usage
  percentage between 0 and 100. The quotient is taken in exact arithmetic.
\<close>

theorem calculateCoverageEntry_invariant:
  assumes "well_formed_ranges entry"
  shows "usedBytes (calculateCoverageEntry parse entry pageUrl)
           + unusedBytes (calculateCoverageEntry parse entry pageUrl)
         = totalBytes (calculateCoverageEntry parse entry pageUrl)
       \<and> 0 \<le> usagePercent (calculateCoverageEntry parse entry pageUrl)
       \<and> usagePercent (calculateCoverageEntry parse entry pageUrl) \<le> 100"
proof -
  let ?n = "int (length (entry_text entry))"
  let ?u = "sumRanges 0 (entry_ranges entry)"
  have u0: "0 \<le> ?u" and un: "?u \<le> ?n"
    using used_bounds[of ?n "entry_ranges entry"] assms
    by (simp_all add: well_formed_ranges_def)
  have "0 \<le> (of_int ?u / of_int ?n :: rat) * 100"
    using u0 by simp
  moreover have "?n > 0 \<Longrightarrow> (of_int ?u / of_int ?n :: rat) * 100 \<le> 100"
    using un by (simp add: divide_le_eq)
  ultimately show ?thesis
    by (simp add: calculateCoverageEntry_def Let_def)
qed

theorem calculateCoverageEntry_invariant_witness:
  "well_formed_ranges exampleEntry
   \<and> usedBytes (calculateCoverageEntry exampleParseURL exampleEntry ''https://example.com/'')
       + unusedBytes (calculateCoverageEntry exampleParseURL exampleEntry ''https://example.com/'')
     = totalBytes (calculateCoverageEntry exampleParseURL exampleEntry ''https://example.com/'')
   \<and> 0 \<le> usagePercent (calculateCoverageEntry exampleParseURL exampleEntry ''https://example.com/'')
   \<and> usagePercent (calculateCoverageEntry exampleParseURL exampleEntry ''https://example.com/'') \<le> 100"
proof -
  have wf: "well_formed_ranges exampleEntry"
    by (simp add: well_formed_ranges_def exampleEntry_def range_in_bounds_def
          ranges_overlap_def)
  show ?thesis
    using wf calculateCoverageEntry_invariant[OF wf, of exampleParseURL "''https://example.com/''"]
    by blast
qed

text \<open>
  C6. \<open>isThirdParty\<close> returns a value for every pair of strings and never throws, an
  exception of the \<open>try\<close> block becoming \<open>false\<close>. Its cases are taken in the order of
  the code. It returns \<open>false\<close> when the URL starts with \<open>data:\<close> or \<open>blob:\<close>.
  Otherwise it returns \<open>false\<close> when either URL fails to parse, and \<open>true\<close> when both
  URLs parse and their origins differ.
\<close>

theorem isThirdParty_cases:
  "(isThirdParty_try parse u pageUrl = None \<longrightarrow> isThirdParty parse u pageUrl = False)
   \<and> (startsWith u ''data:'' \<or> startsWith u ''blob:'' \<longrightarrow> isThirdParty parse u pageUrl = False)
   \<and> (parse u = None \<or> parse pageUrl = None \<longrightarrow> isThirdParty parse u pageUrl = False)
   \<and> (\<not> startsWith u ''data:'' \<and> \<not> startsWith u ''blob:''
        \<and> parse u = Some a \<and> parse pageUrl = Some b \<and> origin a \<noteq> origin b
      \<longrightarrow> isThirdParty parse u pageUrl = True)"
  by (auto simp: isThirdParty_def isThirdParty_try_def split: option.splits)

theorem isThirdParty_cases_witness:
  "isThirdParty_try exampleParseURL ''not a url'' ''https://example.com/'' = None
   \<and> isThirdParty exampleParseURL ''not a url'' ''https://example.com/'' = False
   \<and> startsWith ''blob:https://cdn.example.net/1234'' ''blob:''
   \<and> isThirdParty exampleParseURL ''blob:https://cdn.example.net/1234'' ''https://example.com/'' = False
   \<and> exampleParseURL ''https://cdn.example.net/lib.js''
       = Some \<lparr> origin = ''https://cdn.example.net'', pathname = ''/lib.js'' \<rparr>
   \<and> exampleParseURL ''https://example.com/''
       = Some \<lparr> origin = ''https://example.com'', pathname = ''/'' \<rparr>
   \<and> isThirdParty exampleParseURL ''https://cdn.example.net/lib.js'' ''https://example.com/'' = True"
proof -
  have t: "isThirdParty_try exampleParseURL ''not a url'' ''https://example.com/'' = None"
    by (simp add: isThirdParty_try_def exampleParseURL_def startsWith_def)
  have s: "startsWith ''blob:https://cdn.example.net/1234'' ''blob:''"
    by (simp add: startsWith_def)
  have n: "\<not> startsWith ''https://cdn.example.net/lib.js'' ''data:''"
          "\<not> startsWith ''https://cdn.example.net/lib.js'' ''blob:''"
    by (simp_all add: startsWith_def)
  have a: "exampleParseURL ''https://cdn.example.net/lib.js''
       = Some \<lparr> origin = ''https://cdn.example.net'', pathname = ''/lib.js'' \<rparr>"
    by (simp add: exampleParseURL_def)
  have b: "exampleParseURL ''https://example.com/''
       = Some \<lparr> origin = ''https://example.com'', pathname = ''/'' \<rparr>"
    by (simp add: exampleParseURL_def)
  have d: "origin \<lparr> origin = ''https://cdn.example.net'', pathname = ''/lib.js'' \<rparr>
        \<noteq> origin \<lparr> origin = ''https://example.com'', pathname = ''/'' \<rparr>"
    by simp
  show ?thesis
    using t s n a b d
      isThirdParty_cases[of exampleParseURL "''not a url''" "''https://example.com/''"]
      isThirdParty_cases[of exampleParseURL "''blob:https://cdn.example.net/1234''"
        "''https://example.com/''"]
      isThirdParty_cases[of exampleParseURL "''https://cdn.example.net/lib.js''"
        "''https://example.com/''"
        "\<lparr> origin = ''https://cdn.example.net'', pathname = ''/lib.js'' \<rparr>"
        "\<lparr> origin = ''https://example.com'', pathname = ''/'' \<rparr>"]
    by blast
qed

section \<open>Properties of the priority ladder\<close>

text \<open>
  C2, as the code has it. Both tests of the first rung are strict, so a bundle with
  exactly 100KB (102400 bytes) unused and exactly 50% unused is not \<open>critical\<close>: it is
  \<open>high\<close>, by its byte count. A bundle is \<open>critical\<close> exactly when it has more than
  102400 unused bytes or more than 50% unused.
\<close>

theorem determinePriority_boundary:
  "determinePriority 102400 50 = High
   \<and> (determinePriority unusedB unusedPercent = Critical)
       = (unusedB > 102400 \<or> unusedPercent > 50)"
  by (simp add: determinePriority_def)

theorem determinePriority_boundary_counterexample:
  "determinePriority 102400 50 \<noteq> Critical"
  by (simp add: determinePriority_def)

section \<open>Properties of the coverage session\<close>

lemma appendResponseLines_eq:
  "appendResponseLines ls w = w\<lparr> responseLines := responseLines w @ ls \<rparr>"
  unfolding appendResponseLines_def
  by (induction ls arbitrary: w) (simp_all add: appendResponseLine_def)

lemma collectCoverage_ctx: "ctx (fst (collectCoverage e pg w)) = ctx w"
  by (simp add: collectCoverage_def Let_def callProvider_def split: sum.splits)

lemma collectCoverage_responseLines:
  "responseLines (fst (collectCoverage e pg w)) = responseLines w"
  by (simp add: collectCoverage_def Let_def callProvider_def split: sum.splits)

lemma stopCoverageAndAppendOutput_ctx:
  "ctx (stopCoverageAndAppendOutput e pg w pagination) = (ctx w)\<lparr> runningCoverage := False \<rparr>"
  by (simp add: stopCoverageAndAppendOutput_def Let_def setIsRunningCoverage_def
        appendResponseLine_def logger_def collectCoverage_ctx split: sum.splits)

lemma stopCoverageAndAppendOutput_responseLines:
  "responseLines (stopCoverageAndAppendOutput e pg w pagination) =
     responseLines w @
       (case computeReport e pg w pagination of
          Inl errorText \<Rightarrow> [errorHeaderLine, errorText]
        | Inr report \<Rightarrow> [''Coverage tracking has been stopped.'', '''',
                        formatCoverageReport e report])"
  by (simp add: stopCoverageAndAppendOutput_def Let_def setIsRunningCoverage_def
        appendResponseLine_def logger_def collectCoverage_responseLines split: sum.splits)

lemma exampleReport_computed:
  "computeReport exampleEnv examplePage exampleWorld \<lparr> pageSize = 5, pageIdx = 0 \<rparr>
     = Inr exampleReport"
  by code_simp

text \<open>
  C1. The specification has a successful \<open>coverage_stop\<close> store the report it computed
  in the last-report slot of the session. The code does not: \<open>coverage_stop\<close> leaves the
  slot as it was, in every state. In the example session, which starts with an empty
  slot, the report is computed and shown, the slot is still empty afterwards, and
  \<open>suggest_code_splits\<close>, called next, answers that no coverage data is available.
\<close>

theorem stopCoverage_keeps_last_report:
  "getLastCoverageReport (stopCoverage e params pg w) = getLastCoverageReport w
   \<and> runningCoverage (ctx exampleWorld)
   \<and> computeReport exampleEnv examplePage exampleWorld \<lparr> pageSize = 5, pageIdx = 0 \<rparr>
       = Inr exampleReport
   \<and> getLastCoverageReport
        (stopCoverage exampleEnv \<lparr> param_pageSize = None, param_pageIdx = None \<rparr>
           examplePage exampleWorld) = None
   \<and> take 1 (drop 3 (responseLines
        (suggestCodeSplits exampleEnv
           \<lparr> param_minBundleSizeKB = None, param_minUnusedPercent = None \<rparr>
           (stopCoverage exampleEnv \<lparr> param_pageSize = None, param_pageIdx = None \<rparr>
              examplePage exampleWorld))))
       = [''## Error: No Coverage Data Available'']"
proof -
  have keep: "getLastCoverageReport (stopCoverage e params pg w) = getLastCoverageReport w"
    for e params pg w
    by (simp add: getLastCoverageReport_def stopCoverage_def appendResponseLines_eq
          stopCoverageAndAppendOutput_ctx)
  have empty: "getLastCoverageReport exampleWorld = None"
    by (simp add: getLastCoverageReport_def exampleWorld_def)
  have running: "runningCoverage (ctx exampleWorld)"
    by (simp add: exampleWorld_def)
  let ?w = "stopCoverage exampleEnv \<lparr> param_pageSize = None, param_pageIdx = None \<rparr>
              examplePage exampleWorld"
  have none: "responseLines exampleWorld = []"
    by (simp add: exampleWorld_def)
  have lines: "length (responseLines ?w) = 3"
    using running none
    by (simp add: stopCoverage_def stopCoverageAndAppendOutput_responseLines
          exampleReport_computed)
  have "responseLines (suggestCodeSplits exampleEnv
           \<lparr> param_minBundleSizeKB = None, param_minUnusedPercent = None \<rparr> ?w)
        = responseLines ?w @
          [''## Error: No Coverage Data Available'', '''',
           ''You must run coverage tracking before using this tool:'',
           ''1. Call `coverage_start` to begin tracking'',
           ''2. Navigate or interact with the page'',
           ''3. Call `coverage_stop` to collect data'',
           ''4. Then call `suggest_code_splits` to analyze'']"
    by (simp add: suggestCodeSplits_def keep empty appendResponseLines_eq)
  then show ?thesis
    using keep empty running exampleReport_computed lines by simp
qed



section \<open>Properties of the chain detector\<close>

declare growChain.simps [simp del]

text \<open>
  What one run of the inner loop does: it appends to the chain the nodes of some scripts
  whose URLs are pairwise different and were all unused, and marks these URLs used.
\<close>

lemma growChain_appends:
  assumes "script_url cur \<notin> used"
  shows "\<exists>ss. ss \<noteq> []
           \<and> growChain scripts cur (nodes, us, used)
               = (nodes @ map nodeOf ss, us @ map script_url ss, used \<union> set (map script_url ss))
           \<and> distinct (map script_url ss)
           \<and> set (map script_url ss) \<inter> used = {}"
  using assms
proof (induction scripts cur "(nodes, us, used)" arbitrary: nodes us used rule: growChain.induct)
  case (1 scripts cur nodes us used)
  let ?used' = "insert (script_url cur) used"
  show ?case
  proof (cases "nextScript scripts ?used' cur")
    case None
    then have "growChain scripts cur (nodes, us, used)
               = (nodes @ map nodeOf [cur], us @ map script_url [cur],
                  used \<union> set (map script_url [cur]))"
      by (simp add: growChain.simps)
    moreover have "distinct (map script_url [cur])" by simp
    moreover have "set (map script_url [cur]) \<inter> used = {}" using "1.prems" by simp
    ultimately show ?thesis by blast
  next
    case (Some nxt)
    then have fresh: "script_url nxt \<notin> ?used'"
      using nextScript_unused(2) by blast
    from "1.hyps"[OF refl refl refl Some fresh]
    obtain ss where ss: "ss \<noteq> []"
      "growChain scripts nxt (nodes @ [nodeOf cur], us @ [script_url cur], ?used')
         = ((nodes @ [nodeOf cur]) @ map nodeOf ss, (us @ [script_url cur]) @ map script_url ss,
            ?used' \<union> set (map script_url ss))"
      "distinct (map script_url ss)"
      "set (map script_url ss) \<inter> ?used' = {}"
      by blast
    have "growChain scripts cur (nodes, us, used)
            = (nodes @ map nodeOf (cur # ss), us @ map script_url (cur # ss),
               used \<union> set (map script_url (cur # ss)))"
      using Some ss(2) by (simp add: growChain.simps)
    moreover have "distinct (map script_url (cur # ss))"
      using ss(3,4) by auto
    moreover have "set (map script_url (cur # ss)) \<inter> used = {}"
      using ss(4) "1.prems" by auto
    ultimately show ?thesis by blast
  qed
qed

lemma nodeUrls_nodeOf: "nodeUrls (nodeOf s) = [script_url s]"
  by (simp add: nodeOf_def)

lemma nodeUrls_linkChain:
  "nodeUrls (linkChain (nodeOf s) (map nodeOf ss)) = map script_url (s # ss)"
proof (induction ss arbitrary: s)
  case Nil
  then show ?case by (simp add: nodeUrls_nodeOf)
next
  case (Cons t ts)
  have "nodeUrls (linkChain (nodeOf s) (map nodeOf (t # ts)))
          = script_url s # nodeUrls (linkChain (nodeOf t) (map nodeOf ts))"
    by (simp add: nodeOf_def)
  then show ?case using Cons.IH[of t] by simp
qed

lemma processScript_inv:
  assumes "chains_inv st"
  shows "chains_inv (processScript scripts d m st s)"
proof (cases st)
  case (Pair found used)
  show ?thesis
  proof (cases "script_url s \<in> used")
    case True
    then show ?thesis using assms Pair by (simp add: processScript_def)
  next
    case False
    from growChain_appends[OF False, of scripts "[]" "[]"]
    obtain ss where ss: "ss \<noteq> []"
      "growChain scripts s ([], [], used)
         = (map nodeOf ss, map script_url ss, used \<union> set (map script_url ss))"
      "distinct (map script_url ss)" "set (map script_url ss) \<inter> used = {}"
      by auto
    obtain t ts where tts: "ss = t # ts" using ss(1) by (cases ss) auto
    have inv: "distinct (concat (map urls found))" "set (concat (map urls found)) \<subseteq> used"
      "map (\<lambda>c. nodeUrls (root c)) found = map urls found"
      using assms Pair by (simp_all add: chains_inv_def)
    have new: "distinct (concat (map urls found) @ map script_url ss)"
      using inv(1,2) ss(3,4) by auto
    have link: "nodeUrls (linkChain (nodeOf t) (map nodeOf ts)) = map script_url ss"
      using nodeUrls_linkChain[of t ts] tts by simp
    show ?thesis
      using False Pair ss(2) inv new link tts
      by (auto simp: processScript_def chains_inv_def Let_def)
  qed
qed

lemma foldl_processScript_inv:
  assumes "chains_inv st"
  shows "chains_inv (foldl (processScript scripts d m) st xs)"
  using assms by (induction xs arbitrary: st) (simp_all add: processScript_inv)

text \<open>
  C9. Chain membership goes by URL. Over all the chains \<open>detectBundleChains\<close> returns,
  no URL occurs twice: a chain never holds a URL twice, and no URL is in two chains.
  The nodes below the head of each chain carry exactly the chain's URLs, so of several
  script records with one URL at most one becomes a node.
\<close>

theorem detectBundleChains_urls_distinct:
  "distinct (concat (map urls (detectBundleChains requests d m)))
   \<and> map (\<lambda>c. nodeUrls (root c)) (detectBundleChains requests d m)
       = map urls (detectBundleChains requests d m)"
proof -
  have "chains_inv ([], {})" by (simp add: chains_inv_def)
  then have "chains_inv (foldl (processScript scripts d m) ([], {}) xs)" for scripts xs
    by (rule foldl_processScript_inv)
  then show ?thesis
    by (simp add: detectBundleChains_def Let_def chains_inv_def)
qed

text \<open>Two records with one URL: only the first, in order of end time, becomes a node.\<close>

theorem detectBundleChains_urls_distinct_witness:
  "map urls (detectBundleChains
       [scriptRequest ''https://example.com/app.js'' 0 100 ''50000'',
        scriptRequest ''https://example.com/app.js'' 110 200 ''50000'',
        scriptRequest ''https://example.com/vendor.js'' 120 300 ''80000''] 2 100)
     = [[''https://example.com/app.js'', ''https://example.com/vendor.js'']]
   \<and> distinct (concat (map urls (detectBundleChains
       [scriptRequest ''https://example.com/app.js'' 0 100 ''50000'',
        scriptRequest ''https://example.com/app.js'' 110 200 ''50000'',
        scriptRequest ''https://example.com/vendor.js'' 120 300 ''80000''] 2 100)))"
proof -
  have "map urls (detectBundleChains
       [scriptRequest ''https://example.com/app.js'' 0 100 ''50000'',
        scriptRequest ''https://example.com/app.js'' 110 200 ''50000'',
        scriptRequest ''https://example.com/vendor.js'' 120 300 ''80000''] 2 100)
     = [[''https://example.com/app.js'', ''https://example.com/vendor.js'']]"
    by code_simp
  then show ?thesis
    using detectBundleChains_urls_distinct[of
       "[scriptRequest ''https://example.com/app.js'' 0 100 ''50000'',
        scriptRequest ''https://example.com/app.js'' 110 200 ''50000'',
        scriptRequest ''https://example.com/vendor.js'' 120 300 ''80000'']" 2 100]
    by blast
qed
text \<open>
  Sorting by the comparator \<open>a.endTimeMs - b.endTimeMs\<close> is the stable sort by the key
  \<open>endTimeMs\<close>.
\<close>

lemma insert_by_difference:
  fixes f :: "'a \<Rightarrow> rat"
  shows "insert_by (\<lambda>a b. f a - f b) x ys = insort_key f x ys"
  by (induction ys) simp_all

lemma sort_by_difference:
  fixes f :: "'a \<Rightarrow> rat"
  shows "sort_by (\<lambda>a b. f a - f b) xs = sort_key f xs"
  by (induction xs) (simp_all add: sort_by_def sort_key_def insert_by_difference)

lemma filter_same_key:
  assumes "distinct (map f zs)" and "k \<in> set zs"
  shows "filter (\<lambda>x. f k = f x) zs = [k]"
  using assms
proof (induction zs)
  case Nil
  then show ?case by simp
next
  case (Cons z zs)
  show ?case
  proof (cases "k = z")
    case True
    have "\<forall>x \<in> set zs. f z \<noteq> f x" using Cons.prems(1) by auto
    then have "filter (\<lambda>x. f z = f x) zs = []" by (simp add: filter_empty_conv)
    then show ?thesis using True by simp
  next
    case False
    then have "k \<in> set zs" using Cons.prems(2) by simp
    moreover have "f k \<noteq> f z"
    proof
      assume "f k = f z"
      then have "f z \<in> f ` set zs" using \<open>k \<in> set zs\<close> by (metis imageI)
      then show False using Cons.prems(1) by simp
    qed
    ultimately show ?thesis using Cons by simp
  qed
qed

lemma sort_key_permutation:
  fixes f :: "'a \<Rightarrow> 'k::linorder"
  assumes "mset ys = mset xs" and "distinct (map f xs)"
  shows "sort_key f ys = sort_key f xs"
proof (rule properties_for_sort_key)
  show "mset (sort_key f xs) = mset ys" using assms(1) by simp
  show "sorted (map f (sort_key f xs))" by simp
  have dy: "distinct (map f ys)"
    using assms mset_eq_imp_distinct_iff[of "map f ys" "map f xs"] by simp
  fix k assume "k \<in> set (sort_key f xs)"
  then have kx: "k \<in> set xs" by simp
  then have ky: "k \<in> set ys" using assms(1) mset_eq_setD by blast
  have ds: "distinct (map f (sort_key f xs))"
    using assms(2) mset_eq_imp_distinct_iff[of "map f (sort_key f xs)" "map f xs"] by simp
  show "filter (\<lambda>x. f k = f x) (sort_key f xs) = filter (\<lambda>x. f k = f x) ys"
    using filter_same_key[OF ds, of k] filter_same_key[OF dy ky] kx by simp
qed

lemma mset_scriptsWithTiming:
  assumes "mset requests' = mset requests"
  shows "mset (scriptsWithTiming requests') = mset (scriptsWithTiming requests)"
proof -
  have "mset (List.map_filter g (filter P xs))
          = image_mset (the \<circ> g) (filter_mset (\<lambda>x. g x \<noteq> None) (filter_mset P (mset xs)))"
    for g :: "http_request \<Rightarrow> script option" and P xs
    unfolding List.map_filter_def mset_map mset_filter ..
  then show ?thesis using assms by (simp add: scriptsWithTiming_def)
qed

text \<open>
  C4, as the code has it. The scripts are sorted by end time with a stable sort, so
  records that end at the same time keep the order of the input, and the chains depend
  on it. When no two timed script records end at the same time, every permutation of
  the input gives the same chains.
\<close>

theorem detectBundleChains_permutation:
  assumes "mset requests' = mset requests"
    and "distinct (map endTimeMs (scriptsWithTiming requests))"
  shows "detectBundleChains requests' d m = detectBundleChains requests d m"
proof -
  have "sort_key endTimeMs (scriptsWithTiming requests')
          = sort_key endTimeMs (scriptsWithTiming requests)"
    using sort_key_permutation[OF mset_scriptsWithTiming[OF assms(1)] assms(2)] .
  then show ?thesis
    by (simp add: detectBundleChains_def sort_by_difference)
qed

text \<open>Four scripts with different end times, in two orders.\<close>

theorem detectBundleChains_permutation_witness:
  "mset [scriptRequest ''https://example.com/c.js'' 120 210 ''10000'', scriptB, scriptA]
     = mset [scriptA, scriptB, scriptRequest ''https://example.com/c.js'' 120 210 ''10000'']
   \<and> map endTimeMs (scriptsWithTiming
         [scriptA, scriptB, scriptRequest ''https://example.com/c.js'' 120 210 ''10000''])
       = [100, 200, 210]
   \<and> detectBundleChains
         [scriptRequest ''https://example.com/c.js'' 120 210 ''10000'', scriptB, scriptA] 2 100
       = detectBundleChains
         [scriptA, scriptB, scriptRequest ''https://example.com/c.js'' 120 210 ''10000''] 2 100
   \<and> map urls (detectBundleChains
         [scriptA, scriptB, scriptRequest ''https://example.com/c.js'' 120 210 ''10000''] 2 100)
       = [[''https://example.com/a.js'', ''https://example.com/b.js'']]"
proof -
  let ?c = "scriptRequest ''https://example.com/c.js'' 120 210 ''10000''"
  have p: "mset [?c, scriptB, scriptA] = mset [scriptA, scriptB, ?c]"
    by (simp add: add_mset_commute)
  have k: "map endTimeMs (scriptsWithTiming [scriptA, scriptB, ?c]) = [100, 200, 210]"
    by code_simp
  then have d: "distinct (map endTimeMs (scriptsWithTiming [scriptA, scriptB, ?c]))"
    by simp
  have u: "map urls (detectBundleChains [scriptA, scriptB, ?c] 2 100)
       = [[''https://example.com/a.js'', ''https://example.com/b.js'']]"
    by code_simp
  show ?thesis
    using p k u detectBundleChains_permutation[OF p d, of 2 100] by simp
qed

text \<open>
  C and D end at the same time, and each may follow A. The order of the input then
  decides which of them does, so the result is not the same for every permutation.
\<close>

theorem detectBundleChains_order_counterexample:
  "mset [scriptA, scriptD, scriptC] = mset [scriptA, scriptC, scriptD]
   \<and> map endTimeMs (scriptsWithTiming [scriptA, scriptC, scriptD]) = [100, 250, 250]
   \<and> map urls (detectBundleChains [scriptA, scriptC, scriptD] 2 100)
       = [[''https://example.com/a.js'', ''https://example.com/c.js'']]
   \<and> map urls (detectBundleChains [scriptA, scriptD, scriptC] 2 100)
       = [[''https://example.com/a.js'', ''https://example.com/d.js'']]"
proof -
  have "mset [scriptA, scriptD, scriptC] = mset [scriptA, scriptC, scriptD]"
    by (simp add: add_mset_commute)
  moreover have "map endTimeMs (scriptsWithTiming [scriptA, scriptC, scriptD]) = [100, 250, 250]"
    by code_simp
  moreover have "map urls (detectBundleChains [scriptA, scriptC, scriptD] 2 100)
       = [[''https://example.com/a.js'', ''https://example.com/c.js'']]"
    by code_simp
  moreover have "map urls (detectBundleChains [scriptA, scriptD, scriptC] 2 100)
       = [[''https://example.com/a.js'', ''https://example.com/d.js'']]"
    by code_simp
  ultimately show ?thesis by blast
qed

text \<open>
  C7. Two script records A and B with different URLs, A ending at 100 ms, B not ending
  before it starts, given in either order, with \<open>minChainDepth = 2\<close> and
  \<open>minChainTimeMs \<le> B.end - A.start\<close>. When B starts at 110 ms (a gap of 10 ms), the
  result is exactly one chain, of depth 2, with the URLs of A and B in this order. When
  B starts at 160 ms (a gap of 60 ms), the result is empty.
\<close>

theorem detectBundleChains_two_scripts:
  assumes "req_resourceType a = ''script''" and "req_resourceType b = ''script''"
    and "getRequestTiming a = Some ta" and "getRequestTiming b = Some tb"
    and "req_url a \<noteq> req_url b"
    and "endTimeMs ta = 100"
    and "startTimeMs tb \<le> endTimeMs tb"
    and "m \<le> endTimeMs tb - startTimeMs ta"
    and "requests = [a, b] \<or> requests = [b, a]"
  shows "(startTimeMs tb = 110 \<longrightarrow>
            detectBundleChains requests 2 m =
              [\<lparr> depth = 2, totalTimeMs = endTimeMs tb - startTimeMs ta,
                 urls = [req_url a, req_url b],
                 root = BundleChainNode (req_url a) (sizeBytes ta) (startTimeMs ta) 100
                          (100 - startTimeMs ta)
                          [BundleChainNode (req_url b) (sizeBytes tb) 110 (endTimeMs tb)
                             (endTimeMs tb - 110) []] \<rparr>])
       \<and> (startTimeMs tb = 160 \<longrightarrow> detectBundleChains requests 2 m = [])"
proof -
  define sa where "sa = \<lparr> startTimeMs = startTimeMs ta, endTimeMs = endTimeMs ta,
                          sizeBytes = sizeBytes ta, script_request = a,
                          script_url = req_url a \<rparr>"
  define sb where "sb = \<lparr> startTimeMs = startTimeMs tb, endTimeMs = endTimeMs tb,
                          sizeBytes = sizeBytes tb, script_request = b,
                          script_url = req_url b \<rparr>"
  have fields: "script_url sa = req_url a" "script_url sb = req_url b"
    "endTimeMs sa = 100" "endTimeMs sb = endTimeMs tb"
    "startTimeMs sa = startTimeMs ta" "startTimeMs sb = startTimeMs tb"
    "sizeBytes sa = sizeBytes ta" "sizeBytes sb = sizeBytes tb"
    using assms(6) by (simp_all add: sa_def sb_def)
  have timed: "scriptsWithTiming [a, b] = [sa, sb]" "scriptsWithTiming [b, a] = [sb, sa]"
    using assms(1-4)
    by (simp_all add: scriptsWithTiming_def List.map_filter_def withTiming_def sa_def sb_def)
  have sorted: "sort_by (\<lambda>x y. endTimeMs x - endTimeMs y) (scriptsWithTiming requests) = [sa, sb]"
    if "100 < startTimeMs tb"
    using assms(7,9) that timed fields by (auto simp: sort_by_def)
  have result: "detectBundleChains requests 2 m
                  = fst (foldl (processScript [sa, sb] 2 m) ([], {}) [sa, sb])"
    if "100 < startTimeMs tb"
    using sorted[OF that] by (simp add: detectBundleChains_def Let_def)
  have near: ?thesis if gap: "startTimeMs tb = 110"
  proof -
    have next_a: "nextScript [sa, sb] {req_url a} sa = Some sb"
      using gap assms(5) fields by (simp add: nextScript_def CHAIN_GAP_THRESHOLD_MS_def)
    have next_b: "nextScript [sa, sb] {req_url b, req_url a} sb = None"
      using fields by (simp add: nextScript_def)
    have grow: "growChain [sa, sb] sa ([], [], {})
                  = ([nodeOf sa, nodeOf sb], [req_url a, req_url b], {req_url b, req_url a})"
      using next_a next_b fields
      by (simp add: growChain.simps[of _ sa] growChain.simps[of _ sb])
    have "fst (foldl (processScript [sa, sb] 2 m) ([], {}) [sa, sb])
            = [\<lparr> depth = 2, totalTimeMs = endTimeMs tb - startTimeMs ta,
                 urls = [req_url a, req_url b],
                 root = BundleChainNode (req_url a) (sizeBytes ta) (startTimeMs ta) 100
                          (100 - startTimeMs ta)
                          [BundleChainNode (req_url b) (sizeBytes tb) 110 (endTimeMs tb)
                             (endTimeMs tb - 110) []] \<rparr>]"
      using grow fields gap assms(8) by (simp add: processScript_def nodeOf_def)
    then show ?thesis using result gap by simp
  qed
  have far: ?thesis if gap: "startTimeMs tb = 160"
  proof -
    have next_a: "nextScript [sa, sb] {req_url a} sa = None"
      using gap fields by (simp add: nextScript_def CHAIN_GAP_THRESHOLD_MS_def)
    have next_b: "nextScript [sa, sb] {req_url b, req_url a} sb = None"
      using fields by (simp add: nextScript_def)
    have grow_a: "growChain [sa, sb] sa ([], [], {}) = ([nodeOf sa], [req_url a], {req_url a})"
      using next_a fields by (simp add: growChain.simps[of _ sa])
    have grow_b: "growChain [sa, sb] sb ([], [], {req_url a})
                    = ([nodeOf sb], [req_url b], {req_url b, req_url a})"
      using next_b fields by (simp add: growChain.simps[of _ sb])
    have "fst (foldl (processScript [sa, sb] 2 m) ([], {}) [sa, sb]) = []"
      using grow_a grow_b fields assms(5) by (simp add: processScript_def)
    then show ?thesis using result gap by simp
  qed
  show ?thesis
  proof (cases "startTimeMs tb = 110 \<or> startTimeMs tb = 160")
    case True
    then show ?thesis using near far by blast
  next
    case False
    then show ?thesis by simp
  qed
qed

theorem detectBundleChains_two_scripts_witness:
  "getRequestTiming scriptA = Some \<lparr> startTimeMs = 0, endTimeMs = 100, sizeBytes = Some 50000 \<rparr>
   \<and> getRequestTiming scriptB = Some \<lparr> startTimeMs = 110, endTimeMs = 200, sizeBytes = Some 80000 \<rparr>
   \<and> getRequestTiming scriptLate
        = Some \<lparr> startTimeMs = 160, endTimeMs = 250, sizeBytes = Some 80000 \<rparr>
   \<and> detectBundleChains [scriptB, scriptA] 2 100 =
       [\<lparr> depth = 2, totalTimeMs = 200,
          urls = [''https://example.com/a.js'', ''https://example.com/b.js''],
          root = BundleChainNode ''https://example.com/a.js'' (Some 50000) 0 100 100
                   [BundleChainNode ''https://example.com/b.js'' (Some 80000) 110 200 90 []] \<rparr>]
   \<and> detectBundleChains [scriptA, scriptLate] 2 100 = []"
proof -
  have ta: "getRequestTiming scriptA
              = Some \<lparr> startTimeMs = 0, endTimeMs = 100, sizeBytes = Some 50000 \<rparr>"
    by code_simp
  have tb: "getRequestTiming scriptB
              = Some \<lparr> startTimeMs = 110, endTimeMs = 200, sizeBytes = Some 80000 \<rparr>"
    by code_simp
  have tl: "getRequestTiming scriptLate
              = Some \<lparr> startTimeMs = 160, endTimeMs = 250, sizeBytes = Some 80000 \<rparr>"
    by code_simp
  have ty: "req_resourceType scriptA = ''script''" "req_resourceType scriptB = ''script''"
    "req_resourceType scriptLate = ''script''"
    by (simp_all add: scriptA_def scriptB_def scriptLate_def scriptRequest_def)
  have us: "req_url scriptA = ''https://example.com/a.js''"
    "req_url scriptB = ''https://example.com/b.js''"
    "req_url scriptLate = ''https://example.com/b.js''"
    by (simp_all add: scriptA_def scriptB_def scriptLate_def scriptRequest_def)
  have ne: "req_url scriptA \<noteq> req_url scriptB" "req_url scriptA \<noteq> req_url scriptLate"
    by (simp_all add: us)
  show ?thesis
    using ta tb tl us
      detectBundleChains_two_scripts[OF ty(1) ty(2) ta tb ne(1), of 100 "[scriptB, scriptA]"]
      detectBundleChains_two_scripts[OF ty(1) ty(3) ta tl ne(2), of 100 "[scriptA, scriptLate]"]
    by simp
qed

section \<open>Properties of the heavy-dependency detection\<close>

lemma startsWith_prefix: "startsWith s p = prefix p s"
  unfolding startsWith_def
  by (metis append_take_drop_id prefix_def append_eq_conv_conj)

lemma str_includes_sublist: "str_includes s p = sublist p s"
  by (induction s) (simp_all add: startsWith_prefix sublist_Cons_right)

lemma matchesDependency_sublist:
  "matchesDependency u dep = (\<exists>pat \<in> set (patterns dep). sublist pat u)"
  by (simp add: matchesDependency_def list_ex_iff str_includes_sublist)

lemma firstMatch_None:
  "(firstMatch u deps = None) = list_all (\<lambda>dep. \<not> matchesDependency u dep) deps"
  by (induction deps) simp_all

lemma firstMatch_cong:
  assumes "list_all (\<lambda>dep. matchesDependency u dep = matchesDependency v dep) deps"
  shows "firstMatch u deps = firstMatch v deps"
  using assms by (induction deps) simp_all

text \<open>
  An occurrence of a pattern \<open>a @ dep @ b\<close> in a string \<open>lp @ ''/'' @ t\<close>, where \<open>a\<close> is
  at most one character, the name \<open>dep\<close> has no slash, and \<open>b\<close> has no slash or is a
  slash: the occurrence does not go across the slash after \<open>lp\<close>. It lies in
  \<open>lp @ ''/''\<close> or in \<open>''/'' @ t\<close>.
\<close>

lemma pattern_at_boundary:
  assumes occ: "sublist (a @ dep @ b) (lp @ CHR ''/'' # t)"
    and noslash: "CHR ''/'' \<notin> set dep"
    and short: "length a \<le> 1"
    and tail: "CHR ''/'' \<notin> set b \<or> b = ''/''"
  shows "sublist (a @ dep @ b) (lp @ ''/'') \<or> sublist (a @ dep @ b) (CHR ''/'' # t)"
proof -
  from occ obtain ps ss where eq: "lp @ CHR ''/'' # t = ps @ a @ dep @ b @ ss"
    by (auto simp: sublist_def)
  let ?n = "length lp"
  let ?e = "length ps + length a + length dep + length b"
  show ?thesis
  proof (cases "?n \<le> length ps")
    case True
    have "drop ?n (lp @ CHR ''/'' # t) = drop ?n (ps @ a @ dep @ b @ ss)"
      using eq by simp
    then have "CHR ''/'' # t = drop ?n ps @ (a @ dep @ b) @ ss"
      using True by simp
    then show ?thesis unfolding sublist_def by blast
  next
    case False
    then have start: "length ps + length a \<le> ?n" using short by simp
    show ?thesis
    proof (cases "?e \<le> Suc ?n")
      case True
      have "take (Suc ?n) (lp @ CHR ''/'' # t) = take (Suc ?n) (ps @ a @ dep @ b @ ss)"
        using eq by simp
      then have "lp @ ''/'' = ps @ (a @ dep @ b) @ take (Suc ?n - ?e) ss"
        using True by simp
      then show ?thesis unfolding sublist_def by blast
    next
      case beyond: False
      let ?i = "?n - (length ps + length a)"
      have at: "(ps @ a @ dep @ b @ ss) ! ?n = CHR ''/''"
        using eq by (metis nth_append_length)
      have "(ps @ a @ dep @ b @ ss) ! ?n = ((ps @ a) @ dep @ b @ ss) ! ?n"
        by simp
      also have "\<dots> = (dep @ b @ ss) ! ?i"
        using start by (simp only: nth_append length_append) simp
      finally have shifted: "(dep @ b @ ss) ! ?i = CHR ''/''"
        using at by simp
      show ?thesis
      proof (cases "?i < length dep")
        case True
        then have "dep ! ?i = CHR ''/''" using shifted by (simp add: nth_append)
        then have "CHR ''/'' \<in> set dep" using True by (metis nth_mem)
        then show ?thesis using noslash by simp
      next
        case False
        let ?j = "?i - length dep"
        have j: "?j < length b" using beyond False start by simp
        have "(dep @ b @ ss) ! ?i = (b @ ss) ! ?j"
          using False by (simp add: nth_append)
        also have "\<dots> = b ! ?j" using j by (simp add: nth_append)
        finally have "b ! ?j = CHR ''/''" using shifted by simp
        then have "CHR ''/'' \<in> set b" using j by (metis nth_mem)
        then have "b = ''/''" using tail by simp
        then have "?e = length ps + length a + length dep + 1" by simp
        moreover have "length ps + length a + length dep \<le> ?n"
          using False start by simp
        ultimately show ?thesis using beyond by simp
      qed
    qed
  qed
qed

lemma matchesDependency_boundary:
  assumes "CHR ''/'' \<notin> set dep"
  shows "matchesDependency (lp @ CHR ''/'' # t) dep
           = (matchesDependency (lp @ ''/'') dep \<or> matchesDependency (CHR ''/'' # t) dep)"
proof
  assume occ: "matchesDependency (lp @ CHR ''/'' # t) dep"
  have slash: "sublist (''/'' @ dep @ b) (lp @ ''/'') \<or> sublist (''/'' @ dep @ b) (CHR ''/'' # t)"
    if "sublist (''/'' @ dep @ b) (lp @ CHR ''/'' # t)" and "CHR ''/'' \<notin> set b \<or> b = ''/''"
    for b
    using pattern_at_boundary[OF that(1) assms _ that(2)] by simp
  have bare: "sublist ([] @ dep @ b) (lp @ ''/'') \<or> sublist ([] @ dep @ b) (CHR ''/'' # t)"
    if "sublist ([] @ dep @ b) (lp @ CHR ''/'' # t)" and "CHR ''/'' \<notin> set b \<or> b = ''/''"
    for b
    using pattern_at_boundary[OF that(1) assms _ that(2)] by simp
  from occ obtain pat where pat: "pat \<in> set (patterns dep)" "sublist pat (lp @ CHR ''/'' # t)"
    by (auto simp: matchesDependency_sublist)
  from pat(1) consider "pat = ''/'' @ dep @ ''/''" | "pat = ''/'' @ dep @ ''.''"
    | "pat = [] @ dep @ ''.js''" | "pat = [] @ dep @ ''.min.js''" | "pat = [] @ dep @ ''-''"
    by (auto simp: patterns_def)
  then have "sublist pat (lp @ ''/'') \<or> sublist pat (CHR ''/'' # t)"
  proof cases
    case 1 then show ?thesis using slash[of "''/''"] pat(2) by simp
  next
    case 2 then show ?thesis using slash[of "''.''"] pat(2) by simp
  next
    case 3 then show ?thesis using bare[of "''.js''"] pat(2) by simp
  next
    case 4 then show ?thesis using bare[of "''.min.js''"] pat(2) by simp
  next
    case 5 then show ?thesis using bare[of "''-''"] pat(2) by simp
  qed
  then show "matchesDependency (lp @ ''/'') dep \<or> matchesDependency (CHR ''/'' # t) dep"
    using pat(1) by (auto simp: matchesDependency_sublist)
next
  assume "matchesDependency (lp @ ''/'') dep \<or> matchesDependency (CHR ''/'' # t) dep"
  then obtain pat where pat: "pat \<in> set (patterns dep)"
    "sublist pat (lp @ ''/'') \<or> sublist pat (CHR ''/'' # t)"
    by (auto simp: matchesDependency_sublist)
  have "sublist pat ((lp @ ''/'') @ t)" if "sublist pat (lp @ ''/'')"
    using that by (simp only: sublist_append) simp
  moreover have "sublist pat (lp @ (CHR ''/'' # t))" if "sublist pat (CHR ''/'' # t)"
    using that by (simp only: sublist_append) simp
  ultimately have "sublist pat (lp @ CHR ''/'' # t)" using pat(2) by auto
  then show "matchesDependency (lp @ CHR ''/'' # t) dep"
    using pat(1) by (auto simp: matchesDependency_sublist)
qed

lemma names_without_slash: "list_all (\<lambda>dep. CHR ''/'' \<notin> set dep) dependencyNames"
  by code_simp

lemma dependencyNames_moment_lodash:
  "\<exists>rest. dependencyNames = ''moment'' # ''lodash'' # rest"
  by (simp add: dependencyNames_def DEPENDENCY_ALTERNATIVES_def)

lemma moment_or_lodash:
  assumes "matchesDependency (toLowerCase u) ''lodash''"
  shows "detectHeavyDependency u
           = Some (if matchesDependency (toLowerCase u) ''moment'' then ''moment'' else ''lodash'')"
proof -
  obtain rest where names: "dependencyNames = ''moment'' # ''lodash'' # rest"
    using dependencyNames_moment_lodash by blast
  show ?thesis unfolding detectHeavyDependency_def names using assms by simp
qed

text \<open>
  C8, as the code has it. The first match in the order of the table wins, and a pattern
  may occur anywhere in the URL. A URL that ends in \<open>/lodash.js\<close>, and a URL that
  contains \<open>/node_modules/lodash/lodash.js\<close>, resolves to \<open>lodash\<close> when no pattern of
  \<open>moment\<close>, the one entry declared before \<open>lodash\<close>, occurs in it, and to \<open>moment\<close> when
  one does. The ending \<open>/my-lodashthing.js\<close> matches no pattern: a URL that ends in it
  resolves to what the part before it, up to and with the slash, resolves to, which is
  nothing when no pattern occurs in that part.
\<close>

theorem detectHeavyDependency_lodash:
  "detectHeavyDependency (p @ ''/lodash.js'')
     = Some (if matchesDependency (toLowerCase (p @ ''/lodash.js'')) ''moment''
             then ''moment'' else ''lodash'')
   \<and> (str_includes u ''/node_modules/lodash/lodash.js'' \<longrightarrow>
        detectHeavyDependency u
          = Some (if matchesDependency (toLowerCase u) ''moment'' then ''moment'' else ''lodash''))
   \<and> detectHeavyDependency (p @ ''/my-lodashthing.js'') = detectHeavyDependency (p @ ''/'')
   \<and> (list_all (\<lambda>dep. \<not> matchesDependency (toLowerCase (p @ ''/'')) dep) dependencyNames
        \<longrightarrow> detectHeavyDependency (p @ ''/my-lodashthing.js'') = None)"
proof (intro conjI impI)
  have lower: "toLowerCase (p @ ''/lodash.js'') = toLowerCase p @ ''/lodash.'' @ ''js''"
    by (simp add: toLowerCase_def lowerChar_def)
  have "sublist ''/lodash.'' (toLowerCase p @ ''/lodash.'' @ ''js'')"
    by (rule sublist_appendI)
  then have "matchesDependency (toLowerCase (p @ ''/lodash.js'')) ''lodash''"
    unfolding lower by (auto simp: matchesDependency_sublist patterns_def)
  then show "detectHeavyDependency (p @ ''/lodash.js'')
     = Some (if matchesDependency (toLowerCase (p @ ''/lodash.js'')) ''moment''
             then ''moment'' else ''lodash'')"
    by (rule moment_or_lodash)
next
  assume u: "str_includes u ''/node_modules/lodash/lodash.js''"
  have same: "toLowerCase ''/node_modules/lodash/lodash.js'' = ''/node_modules/lodash/lodash.js''"
    by code_simp
  have "sublist (toLowerCase ''/node_modules/lodash/lodash.js'') (toLowerCase u)"
    using u unfolding toLowerCase_def str_includes_sublist by (intro map_mono_sublist) simp
  then have whole: "sublist ''/node_modules/lodash/lodash.js'' (toLowerCase u)"
    unfolding same .
  have part: "sublist ''/lodash/'' ''/node_modules/lodash/lodash.js''"
    by code_simp
  have "sublist ''/lodash/'' (toLowerCase u)"
    using part whole by (rule sublist_order.order_trans)
  then have "matchesDependency (toLowerCase u) ''lodash''"
    by (auto simp: matchesDependency_sublist patterns_def)
  then show "detectHeavyDependency u
          = Some (if matchesDependency (toLowerCase u) ''moment'' then ''moment'' else ''lodash'')"
    by (rule moment_or_lodash)
next
  have lower: "toLowerCase (p @ ''/my-lodashthing.js'')
                 = toLowerCase p @ CHR ''/'' # ''my-lodashthing.js''"
    "toLowerCase (p @ ''/'') = toLowerCase p @ ''/''"
    by (simp_all add: toLowerCase_def lowerChar_def)
  have ending: "list_all (\<lambda>dep. \<not> matchesDependency (CHR ''/'' # ''my-lodashthing.js'') dep)
          dependencyNames"
    by code_simp
  have "list_all (\<lambda>dep. matchesDependency (toLowerCase p @ CHR ''/'' # ''my-lodashthing.js'') dep
                          = matchesDependency (toLowerCase p @ ''/'') dep) dependencyNames"
    unfolding list_all_iff
  proof
    fix dep assume known: "dep \<in> set dependencyNames"
    then have "CHR ''/'' \<notin> set dep"
      using names_without_slash by (simp add: list_all_iff)
    moreover have "\<not> matchesDependency (CHR ''/'' # ''my-lodashthing.js'') dep"
      using ending known by (simp add: list_all_iff)
    ultimately show "matchesDependency (toLowerCase p @ CHR ''/'' # ''my-lodashthing.js'') dep
                          = matchesDependency (toLowerCase p @ ''/'') dep"
      using matchesDependency_boundary[of dep "toLowerCase p" "''my-lodashthing.js''"] by simp
  qed
  then show same: "detectHeavyDependency (p @ ''/my-lodashthing.js'') = detectHeavyDependency (p @ ''/'')"
    unfolding detectHeavyDependency_def lower by (rule firstMatch_cong)
  assume "list_all (\<lambda>dep. \<not> matchesDependency (toLowerCase (p @ ''/'')) dep) dependencyNames"
  then have "detectHeavyDependency (p @ ''/'') = None"
    by (simp add: detectHeavyDependency_def firstMatch_None)
  then show "detectHeavyDependency (p @ ''/my-lodashthing.js'') = None"
    using same by simp
qed

theorem detectHeavyDependency_lodash_witness:
  "detectHeavyDependency ''https://example.com/lodash.js'' = Some ''lodash''
   \<and> detectHeavyDependency ''https://unpkg.com/lodash/lodash.js'' = Some ''lodash''
   \<and> str_includes ''https://example.com/node_modules/lodash/lodash.js''
        ''/node_modules/lodash/lodash.js''
   \<and> detectHeavyDependency ''https://example.com/node_modules/lodash/lodash.js'' = Some ''lodash''
   \<and> list_all (\<lambda>dep. \<not> matchesDependency (toLowerCase ''https://example.com/'') dep)
        dependencyNames
   \<and> detectHeavyDependency ''https://example.com/my-lodashthing.js'' = None"
proof -
  have m: "\<not> matchesDependency (toLowerCase ''https://example.com/lodash.js'') ''moment''"
    "\<not> matchesDependency (toLowerCase ''https://unpkg.com/lodash/lodash.js'') ''moment''"
    "\<not> matchesDependency (toLowerCase ''https://example.com/node_modules/lodash/lodash.js'')
        ''moment''"
    by code_simp+
  have i: "str_includes ''https://example.com/node_modules/lodash/lodash.js''
             ''/node_modules/lodash/lodash.js''"
    by code_simp
  have n: "list_all (\<lambda>dep. \<not> matchesDependency (toLowerCase ''https://example.com/'') dep)
        dependencyNames"
    by code_simp
  note first = detectHeavyDependency_lodash[of "''https://example.com''"
        "''https://example.com/node_modules/lodash/lodash.js''"]
  note second = detectHeavyDependency_lodash[of "''https://unpkg.com/lodash''"
        "''https://example.com/node_modules/lodash/lodash.js''"]
  have a: "detectHeavyDependency ''https://example.com/lodash.js'' = Some ''lodash''"
    using first[THEN conjunct1] m(1) by simp
  have b: "detectHeavyDependency ''https://unpkg.com/lodash/lodash.js'' = Some ''lodash''"
    using second[THEN conjunct1] m(2) by simp
  have c: "detectHeavyDependency ''https://example.com/node_modules/lodash/lodash.js''
             = Some ''lodash''"
    using first[THEN conjunct2, THEN conjunct1, rule_format, OF i] m(3) by simp
  have d: "detectHeavyDependency ''https://example.com/my-lodashthing.js'' = None"
    using first[THEN conjunct2, THEN conjunct2, THEN conjunct2] n by simp
  show ?thesis
    using a b i c n d by (intro conjI)
qed

text \<open>
  Without these conditions the statement fails. A URL that ends in \<open>/lodash.js\<close>
  resolves to \<open>moment\<close> when \<open>moment-\<close> occurs before the ending, and a URL that ends in
  \<open>/my-lodashthing.js\<close> resolves to \<open>jquery\<close> when \<open>jquery-\<close> does.
\<close>

theorem detectHeavyDependency_lodash_counterexample:
  "detectHeavyDependency ''https://example.com/moment-locales/lodash.js'' = Some ''moment''
   \<and> detectHeavyDependency ''https://example.com/jquery-ui/my-lodashthing.js'' = Some ''jquery''"
  by code_simp

section \<open>Properties of the rendered suggestions\<close>

lemma foldl_append_lines:
  "foldl (\<lambda>ls x. ls @ f x) acc xs = acc @ concat (map f xs)"
  by (induction xs arbitrary: acc) simp_all

lemma foldl_append_line:
  "foldl (\<lambda>ls x. ls @ [g x]) acc xs = acc @ map g xs"
  by (induction xs arbitrary: acc) simp_all

lemma isAdviceLine_simps:
  "\<not> isAdviceLine []"
  "c \<noteq> CHR ''-'' \<Longrightarrow> \<not> isAdviceLine (c # cs)"
  "d \<noteq> CHR ''*'' \<Longrightarrow> \<not> isAdviceLine (CHR ''-'' # CHR '' '' # d # cs)"
  "isAdviceLine (CHR ''-'' # CHR '' '' # CHR ''*'' # CHR ''*'' # cs)"
  by (simp_all add: isAdviceLine_def startsWith_def)

lemma advice_summaryLines: "filter isAdviceLine (summaryLines e candidates) = []"
  by (simp add: summaryLines_def Let_def isAdviceLine_simps)

lemma advice_alternativeRows: "filter isAdviceLine (alternativeRows e dep) = []"
  by (simp add: alternativeRows_def isAdviceLine_simps filter_map o_def split: option.splits)

lemma advice_heavySection: "filter isAdviceLine (heavySection e heavyDeps) = []"
  by (simp add: heavySection_def foldl_append_lines isAdviceLine_simps filter_concat
        advice_alternativeRows)

lemma advice_treeShakingLines: "filter isAdviceLine (treeShakingLines e kv) = []"
  by (cases kv) (simp add: treeShakingLines_def isAdviceLine_simps)

lemma advice_treeShakingSection: "filter isAdviceLine (treeShakingSection e heavyDeps) = []"
  by (simp add: treeShakingSection_def foldl_append_lines isAdviceLine_simps filter_concat
        advice_treeShakingLines)

lemma advice_opportunitiesSection:
  "filter isAdviceLine (opportunitiesSection e candidates) = []"
  by (simp add: opportunitiesSection_def foldl_append_line isAdviceLine_simps
        opportunityRow_def filter_map o_def)

lemma advice_lazySection:
  "filter isAdviceLine (lazySection e candidates)
     = map (lazyAdviceLine e)
         (take 5 (filter (\<lambda>c. usagePercent c < 50 \<and> \<not> isExternal c) candidates))"
proof -
  have "filter isAdviceLine (concat (map (\<lambda>c. [lazyAdviceLine e c, '''']) cs))
          = map (lazyAdviceLine e) cs" for cs
    by (induction cs)
       (simp_all add: isAdviceLine_simps lazyAdviceLine_def generateLazyLoadAdvice_def Let_def)
  then show ?thesis
    by (simp add: lazySection_def Let_def foldl_append_lines isAdviceLine_simps)
qed

text \<open>
  C10. The output of \<open>suggest_code_splits\<close> is truncated. When the session has a
  report with JavaScript entries, the handler appends to the response the lines of
  \<open>suggestionLines\<close>, joined, for the JavaScript entries of that report. These lines hold
  at most 5 lazy-load advice entries: one for each of the first five lazy-load
  candidates. When there is a candidate, the output ends with the table of all
  opportunities, which has at most 15 rows, one for each of the first fifteen
  candidates; when more than 15 qualify, the table is followed by an empty line and a
  line giving the number of the others, and by nothing else. When there is no candidate,
  the output has neither advice nor table.
\<close>

theorem suggestionLines_truncated:
  "(getLastCoverageReport w = Some report \<and> jsCoverage report \<noteq> [] \<longrightarrow>
      responseLines (suggestCodeSplits e params w) =
        responseLines w
        @ [join [CHR 10]
             (suggestionLines e
                (case param_minBundleSizeKB params of None \<Rightarrow> 50 | Some x \<Rightarrow> x)
                (case param_minUnusedPercent params of None \<Rightarrow> 20 | Some x \<Rightarrow> x)
                (jsCoverage report))])
   \<and> length (filter isAdviceLine (suggestionLines e minKB minPct js)) \<le> 5
   \<and> filter isAdviceLine (suggestionLines e minKB minPct js)
       = map (lazyAdviceLine e)
           (take 5 (filter (\<lambda>c. usagePercent c < 50 \<and> \<not> isExternal c)
                      (fst (selectCandidates minKB minPct js))))
   \<and> (fst (selectCandidates minKB minPct js) \<noteq> [] \<longrightarrow>
        (\<exists>before rows.
           suggestionLines e minKB minPct js =
             before
             @ [''### All Optimization Opportunities'', '''',
                ''| URL | Priority | Size | Used | Unused | Usage % |'',
                ''|-----|----------|------|------|--------|---------|'']
             @ rows
             @ (if length (fst (selectCandidates minKB minPct js)) > 15 then
                  ['''',
                   ''*...and ''
                   @ numberToString e
                       (of_nat (length (fst (selectCandidates minKB minPct js))) - 15)
                   @ '' more opportunities*'']
                else [])
           \<and> rows = map (opportunityRow e) (take 15 (fst (selectCandidates minKB minPct js)))
           \<and> length rows \<le> 15))
   \<and> (fst (selectCandidates minKB minPct js) = [] \<longrightarrow>
        suggestionLines e minKB minPct js =
          summaryLines e []
          @ [''### No Optimization Opportunities Found'', '''',
             ''No bundles found with size >= '' @ numberToString e minKB
               @ ''KB and unused >= '' @ numberToString e minPct @ ''%.'',
             ''Your bundles appear well-optimized!''])"
proof -
  obtain candidates heavyDeps where sel: "selectCandidates minKB minPct js = (candidates, heavyDeps)"
    by (cases "selectCandidates minKB minPct js")
  have advice: "filter isAdviceLine (suggestionLines e minKB minPct js)
                  = map (lazyAdviceLine e)
                      (take 5 (filter (\<lambda>c. usagePercent c < 50 \<and> \<not> isExternal c) candidates))"
    by (simp add: suggestionLines_def sel advice_summaryLines advice_heavySection
          advice_lazySection advice_treeShakingSection advice_opportunitiesSection
          isAdviceLine_simps)
  have table: "suggestionLines e minKB minPct js =
             (summaryLines e candidates @ heavySection e heavyDeps @ lazySection e candidates
                @ treeShakingSection e heavyDeps)
             @ [''### All Optimization Opportunities'', '''',
                ''| URL | Priority | Size | Used | Unused | Usage % |'',
                ''|-----|----------|------|------|--------|---------|'']
             @ map (opportunityRow e) (take 15 candidates)
             @ (if length candidates > 15 then
                  ['''',
                   ''*...and '' @ numberToString e (of_nat (length candidates) - 15)
                   @ '' more opportunities*'']
                else [])"
    if "candidates \<noteq> []"
    using that by (simp add: suggestionLines_def sel opportunitiesSection_def foldl_append_line)
  have none: "suggestionLines e minKB minPct js =
          summaryLines e []
          @ [''### No Optimization Opportunities Found'', '''',
             ''No bundles found with size >= '' @ numberToString e minKB
               @ ''KB and unused >= '' @ numberToString e minPct @ ''%.'',
             ''Your bundles appear well-optimized!'']"
    if "candidates = []"
    using that by (simp add: suggestionLines_def sel)
  have rows: "length (map (opportunityRow e) (take 15 candidates)) \<le> 15"
    by simp
  have response: "responseLines (suggestCodeSplits e params w) =
        responseLines w
        @ [join [CHR 10]
             (suggestionLines e
                (case param_minBundleSizeKB params of None \<Rightarrow> 50 | Some x \<Rightarrow> x)
                (case param_minUnusedPercent params of None \<Rightarrow> 20 | Some x \<Rightarrow> x)
                (jsCoverage report))]"
    if "getLastCoverageReport w = Some report \<and> jsCoverage report \<noteq> []"
    using that by (simp add: suggestCodeSplits_def Let_def appendResponseLine_def)
  show ?thesis
    unfolding sel fst_conv
    using response advice table none rows by (intro conjI impI) (blast, simp, simp, blast, simp)
qed

theorem suggestionLines_truncated_witness:
  "getLastCoverageReport exampleSplitWorld = Some exampleSplitReport
   \<and> jsCoverage exampleSplitReport \<noteq> []
   \<and> responseLines (suggestCodeSplits exampleEnv
         \<lparr> param_minBundleSizeKB = None, param_minUnusedPercent = None \<rparr> exampleSplitWorld)
       = [join [CHR 10] (suggestionLines exampleEnv 50 20 (replicate 16 exampleChunk))]
   \<and> fst (selectCandidates 50 20 (replicate 16 exampleChunk)) \<noteq> []
   \<and> length (fst (selectCandidates 50 20 (replicate 16 exampleChunk))) = 16
   \<and> length (filter isAdviceLine
         (suggestionLines exampleEnv 50 20 (replicate 16 exampleChunk))) = 5
   \<and> (\<exists>before rows.
         suggestionLines exampleEnv 50 20 (replicate 16 exampleChunk) =
           before
           @ [''### All Optimization Opportunities'', '''',
              ''| URL | Priority | Size | Used | Unused | Usage % |'',
              ''|-----|----------|------|------|--------|---------|'']
           @ rows
           @ ['''', ''*...and 1 more opportunities*'']
         \<and> length rows = 15)"
proof -
  let ?js = "replicate 16 exampleChunk"
  let ?params = "\<lparr> param_minBundleSizeKB = None, param_minUnusedPercent = None \<rparr>"
  have stored: "getLastCoverageReport exampleSplitWorld = Some exampleSplitReport"
    by (simp add: getLastCoverageReport_def exampleSplitWorld_def)
  have js: "jsCoverage exampleSplitReport = ?js"
    by (simp add: exampleSplitReport_def)
  then have nonempty: "jsCoverage exampleSplitReport \<noteq> []"
    by simp
  have lines: "responseLines exampleSplitWorld = []"
    by (simp add: exampleSplitWorld_def)
  have n: "length (fst (selectCandidates 50 20 ?js)) = 16"
    by code_simp
  then have ne: "fst (selectCandidates 50 20 ?js) \<noteq> []"
    by auto
  have lz: "length (filter (\<lambda>c. usagePercent c < 50 \<and> \<not> isExternal c)
                      (fst (selectCandidates 50 20 ?js))) = 16"
    by code_simp
  have one: "numberToString exampleEnv (of_nat 16 - 15) = ''1''"
    by code_simp
  note truncated = suggestionLines_truncated[of exampleSplitWorld exampleSplitReport
      exampleEnv ?params 50 20 ?js]
  have response: "responseLines (suggestCodeSplits exampleEnv ?params exampleSplitWorld)
       = [join [CHR 10] (suggestionLines exampleEnv 50 20 ?js)]"
    using truncated stored nonempty lines js by simp
  have advice: "length (filter isAdviceLine (suggestionLines exampleEnv 50 20 ?js)) = 5"
    using truncated lz by simp
  obtain before rows where
    "suggestionLines exampleEnv 50 20 ?js =
           before
           @ [''### All Optimization Opportunities'', '''',
              ''| URL | Priority | Size | Used | Unused | Usage % |'',
              ''|-----|----------|------|------|--------|---------|'']
           @ rows
           @ ['''', ''*...and '' @ numberToString exampleEnv (of_nat 16 - 15)
                     @ '' more opportunities*'']"
    and "rows = map (opportunityRow exampleEnv) (take 15 (fst (selectCandidates 50 20 ?js)))"
    using truncated ne n by auto
  then have "suggestionLines exampleEnv 50 20 ?js =
           before
           @ [''### All Optimization Opportunities'', '''',
              ''| URL | Priority | Size | Used | Unused | Usage % |'',
              ''|-----|----------|------|------|--------|---------|'']
           @ rows
           @ ['''', ''*...and 1 more opportunities*'']"
    and "length rows = 15"
    using one n by simp_all
  then show ?thesis using stored nonempty response ne n advice by blast
qed

end
